theory Spec2Isabelle
  imports Complex_Main
begin

section \<open>JavaScript values, thrown values and the host runtime\<close>

text \<open>
  The values that flow through the agent executor are JSON-like trees. Numbers are modelled
  as reals (IEEE rounding, signed zero and the infinities are not represented); \<open>VNaN\<close> is
  the one non-finite number that the code tests for. Strings are lists of 8-bit characters.
\<close>

datatype jsval =
    VUndefined
  | VNull
  | VBool bool
  | VNum real
  | VNaN
  | VStr string
  | VArr "jsval list"
  | VObj "(string \<times> jsval) list"

text \<open>
  What a tool hands back: a JSON-like tree, or any other value of the engine (a BigInt, a
  function, an object with cycles, accessors or methods), which only a custom body can
  produce and which the executor only stores and gives to \<open>JSON.stringify\<close>. The number
  names the value.
\<close>

datatype tool_value = Json jsval | Opaque nat

text \<open>Truthiness, as \<open>if (v)\<close>, \<open>!v\<close> and \<open>v || d\<close> read it.\<close>

fun truthy :: "jsval \<Rightarrow> bool" where
  "truthy VUndefined = False"
| "truthy VNull = False"
| "truthy (VBool b) = b"
| "truthy (VNum r) = (r \<noteq> 0)"
| "truthy VNaN = False"
| "truthy (VStr s) = (s \<noteq> [])"
| "truthy (VArr xs) = True"
| "truthy (VObj fs) = True"

text \<open>
  What a \<open>throw\<close> can carry, as far as a \<open>catch (error)\<close> block that reads
  \<open>error.message\<close> can tell: an error object with a message (every \<open>new Error(m)\<close> and
  every error raised by the engine), a plain value (\<open>throw null\<close>, \<open>throw "text"\<close>,
  \<open>throw { code: 1 }\<close>), or an object whose \<open>message\<close> is an accessor that itself throws.
\<close>

datatype thrown = JsError string | ThrownValue jsval | MessageThrows thrown

text \<open>
  Reading a property \<open>v.k\<close> for the keys the executor reads (none of them is a built-in
  property of strings, numbers or arrays): a TypeError on \<open>null\<close> and \<open>undefined\<close>,
  the bound value on an object, \<open>undefined\<close> otherwise.
\<close>

fun get_prop :: "jsval \<Rightarrow> string \<Rightarrow> thrown + jsval" where
  "get_prop VUndefined k = Inl (JsError (''Cannot read properties of undefined (reading '' @ [CHR 0x27] @ k @ [CHR 0x27] @ '')''))"
| "get_prop VNull k = Inl (JsError (''Cannot read properties of null (reading '' @ [CHR 0x27] @ k @ [CHR 0x27] @ '')''))"
| "get_prop (VObj fs) k = Inr (case map_of fs k of None \<Rightarrow> VUndefined | Some v \<Rightarrow> v)"
| "get_prop v k = Inr VUndefined"

text \<open>\<open>error.message\<close> read in a \<open>catch\<close> block: the value read, or what the read throws.\<close>

fun message_value :: "thrown \<Rightarrow> thrown + jsval" where
  "message_value (JsError m) = Inr (VStr m)"
| "message_value (ThrownValue v) = get_prop v ''message''"
| "message_value (MessageThrows t) = Inl t"

text \<open>
  What a custom tool body gives when its wrapped source is compiled and run: an \<open>execute\<close>
  function (or a function returned by the body itself), no such function, or a value
  returned by the body that is not a function. The entry point returns a value or throws; a
  body that never settles is not modelled.
\<close>

datatype body_outcome =
    DefinesExecute "jsval \<Rightarrow> thrown + tool_value"
  | NoExecute
  | ReturnsNonFunction

text \<open>The fields of a fetch \<open>Response\<close> that \<open>executeApiCaller\<close> copies into its result.\<close>

record http_response =
  status :: jsval
  statusText :: jsval
  response_headers :: jsval
  response_data :: jsval

text \<open>
  The facilities of the JavaScript runtime, of the network and of the browser that the code
  calls but does not define; every general theorem below holds for every host.
  \<^item> \<open>JSON_parse\<close>: \<open>JSON.parse\<close>, \<open>None\<close> when it throws a SyntaxError;
  \<^item> \<open>JSON_stringify\<close>: the text that \<open>JSON.stringify(v, null, 2)\<close> contributes to a
    template literal, or what it throws (a TypeError on a BigInt or a cycle, whatever a
    \<open>toJSON\<close> method throws);
  \<^item> \<open>Function_call\<close>: \<open>Function(src)()\<close>, \<open>Inl\<close> the message of the error the engine
    raises while compiling or running \<open>src\<close>;
  \<^item> \<open>codeFactory\<close>: compiling and running the wrapper around a tool's
    \<open>codeImplementation\<close>, up to the wrapper's own test of \<open>typeof execute\<close>;
  \<^item> \<open>parseFloat_text\<close>: \<open>parseFloat\<close> on a string, \<open>None\<close> for \<open>NaN\<close>;
  \<^item> \<open>Number_toString\<close>: the text of a number;
  \<^item> \<open>fetch\<close>: the request of \<open>executeApiCaller\<close> (url, method, the caller's headers,
    the body when one is sent) up to the decoded response, \<open>Inl\<close> the message of the
    error raised on the way;
  \<^item> the clock, the local time zone, the locale formatter (date and time in a zone,
    \<open>Inl\<close> the message of its RangeError), and \<open>crypto.randomUUID\<close> or its fallback;
  \<^item> \<open>searchSimilarDocuments\<close>: the vector store (agent id, query, API key, top-k), the
    contents of the documents found, \<open>Inl\<close> when it throws.
\<close>

record host =
  JSON_parse :: "string \<Rightarrow> jsval option"
  JSON_stringify :: "tool_value \<Rightarrow> thrown + string"
  Function_call :: "string \<Rightarrow> string + jsval"
  codeFactory :: "string \<Rightarrow> thrown + body_outcome"
  parseFloat_text :: "string \<Rightarrow> real option"
  Number_toString :: "real \<Rightarrow> string"
  fetch :: "jsval \<Rightarrow> jsval \<Rightarrow> jsval \<Rightarrow> jsval option \<Rightarrow> string + http_response"
  now_isoUtc :: string
  now_epochSeconds :: real
  local_timeZone :: string
  format_date_time :: "string \<Rightarrow> string + string \<times> string"
  randomUUID :: string
  searchSimilarDocuments :: "jsval \<Rightarrow> string \<Rightarrow> string \<Rightarrow> jsval \<Rightarrow> string + string list"

subsection \<open>Conversion to string\<close>

text \<open>
  The string of a value, as a template literal and \<open>parseFloat\<close> take it. An object is
  converted through its \<open>toString\<close>: a tree with an own key \<open>toString\<close> holds a value
  there that cannot be called, and the conversion throws a TypeError; without such a key
  the inherited method answers \<open>[object Object]\<close>. An array joins the strings of its
  elements (nothing for \<open>null\<close> and \<open>undefined\<close>), and throws where one of them does.
\<close>

fun join_comma :: "string list \<Rightarrow> string" where
  "join_comma [] = []"
| "join_comma [x] = x"
| "join_comma (x # y # ys) = x @ '','' @ join_comma (y # ys)"

text \<open>Running a list of computations in order, up to the first that throws.\<close>

fun sequence :: "(thrown + 'a) list \<Rightarrow> thrown + 'a list" where
  "sequence [] = Inr []"
| "sequence (x # xs) =
     (case x of
        Inl e \<Rightarrow> Inl e
      | Inr v \<Rightarrow> (case sequence xs of Inl e \<Rightarrow> Inl e | Inr vs \<Rightarrow> Inr (v # vs)))"

fun ToString :: "host \<Rightarrow> jsval \<Rightarrow> thrown + string" where
  "ToString h VUndefined = Inr ''undefined''"
| "ToString h VNull = Inr ''null''"
| "ToString h (VBool b) = Inr (if b then ''true'' else ''false'')"
| "ToString h (VNum r) = Inr (Number_toString h r)"
| "ToString h VNaN = Inr ''NaN''"
| "ToString h (VStr s) = Inr s"
| "ToString h (VArr xs) =
     (case sequence (map (\<lambda>x. if x = VUndefined \<or> x = VNull then Inr [] else ToString h x) xs) of
        Inl e \<Rightarrow> Inl e
      | Inr parts \<Rightarrow> Inr (join_comma parts))"
| "ToString h (VObj fs) =
     (if map_of fs ''toString'' \<noteq> None
      then Inl (JsError ''Cannot convert object to primitive value'')
      else Inr ''[object Object]'')"

text \<open>\<open>error.message\<close> inside a template literal: the text interpolated, or what is thrown.\<close>

definition message_text :: "host \<Rightarrow> thrown \<Rightarrow> thrown + string" where
  "message_text h error =
     (case message_value error of
        Inl t \<Rightarrow> Inl t
      | Inr m \<Rightarrow> ToString h m)"

section \<open>The function-call parser (toolExecutor.js, parseFunctionCalls)\<close>

text \<open>
  The regular expression of the parser is a sequence of literals, lazy wildcards
  \<open>[\s\S]*?\<close> and one greedy class \<open>[^"]+\<close>. \<open>rx_match\<close> is the backtracking matcher
  anchored at the head of its input: it returns the input left after the first match
  found in the engine's order (a lazy star tries the shortest expansion first, the greedy
  plus the longest).
\<close>

datatype rx_item = Lit string | LazyAny | NotQuotePlus

fun rx_match :: "rx_item list \<Rightarrow> string \<Rightarrow> string option" where
  "rx_match [] s = Some s"
| "rx_match (Lit l # r) s =
     (if take (length l) s = l then rx_match r (drop (length l) s) else None)"
| "rx_match (LazyAny # r) s =
     (case rx_match r s of
        Some t \<Rightarrow> Some t
      | None \<Rightarrow> (case s of [] \<Rightarrow> None | c # s' \<Rightarrow> rx_match (LazyAny # r) s'))"
| "rx_match (NotQuotePlus # r) s =
     (case s of
        [] \<Rightarrow> None
      | c # s' \<Rightarrow>
          if c = CHR 0x22 then None
          else (case rx_match (NotQuotePlus # r) s' of
                  Some t \<Rightarrow> Some t
                | None \<Rightarrow> rx_match r s'))"

text \<open>
  \<open>regex.exec(text)\<close> from the current \<open>lastIndex\<close>: the input is the text from
  \<open>lastIndex\<close> on; the result is the number of characters skipped before the match, the
  matched text \<open>match[0]\<close>, and the text after the match (the new \<open>lastIndex\<close>).
\<close>

fun rx_exec :: "rx_item list \<Rightarrow> string \<Rightarrow> (nat \<times> string \<times> string) option" where
  "rx_exec items s =
     (case rx_match items s of
        Some rest \<Rightarrow> Some (0, take (length s - length rest) s, rest)
      | None \<Rightarrow>
          (case s of
             [] \<Rightarrow> None
           | c # s' \<Rightarrow> map_option (\<lambda>(k, m, rest). (Suc k, m, rest)) (rx_exec items s')))"

definition functionCallRegex :: "rx_item list" where
  "functionCallRegex =
     [Lit ''{'', LazyAny, Lit [CHR 0x22, CHR ''f'', CHR ''u'', CHR ''n'', CHR ''c'', CHR ''t'',
                               CHR ''i'', CHR ''o'', CHR ''n'', CHR 0x22],
      LazyAny, Lit '':'', LazyAny, Lit [CHR 0x22], NotQuotePlus, Lit [CHR 0x22],
      LazyAny, Lit '','', LazyAny,
      Lit [CHR 0x22, CHR ''a'', CHR ''r'', CHR ''g'', CHR ''u'', CHR ''m'', CHR ''e'',
           CHR ''n'', CHR ''t'', CHR ''s'', CHR 0x22],
      LazyAny, Lit '':'', LazyAny, Lit ''{'', LazyAny, Lit ''}'', LazyAny, Lit ''}'']"

text \<open>A parsed call \<open>{ name, arguments }\<close>; \<open>call_name\<close> is its \<open>name\<close>.\<close>

record FunctionCallRequest =
  call_name :: jsval
  arguments :: jsval

text \<open>
  The body of the \<open>try\<close> in the loop: \<open>JSON.parse(match[0])\<close>, then the two property
  reads. \<open>None\<close> is the \<open>catch\<close> branch, which only logs.
\<close>

definition parse_match :: "host \<Rightarrow> string \<Rightarrow> FunctionCallRequest option" where
  "parse_match h m =
     (case JSON_parse h m of
        None \<Rightarrow> None
      | Some callData \<Rightarrow>
          (case get_prop callData ''function'' of
             Inl e \<Rightarrow> None
           | Inr f \<Rightarrow>
               (case get_prop callData ''arguments'' of
                  Inl e \<Rightarrow> None
                | Inr a \<Rightarrow> Some \<lparr>call_name = f, arguments = a\<rparr>)))"

lemma rx_match_length: "rx_match items s = Some t \<Longrightarrow> length t \<le> length s"
proof (induction items s arbitrary: t rule: rx_match.induct)
  case (1 s)
  then show ?case by simp
next
  case (2 l r s)
  from "2.prems" have pre: "take (length l) s = l"
    and m: "rx_match r (drop (length l) s) = Some t"
    by (simp_all split: if_splits)
  from "2.IH" [OF pre m] show ?case by simp
next
  case (3 r s)
  show ?case
  proof (cases "rx_match r s")
    case (Some u)
    with "3.prems" have "u = t" by simp
    with "3.IH"(1) Some show ?thesis by simp
  next
    case None
    show ?thesis
    proof (cases s)
      case Nil
      with None "3.prems" show ?thesis by simp
    next
      case (Cons c s')
      with None "3.prems" have "rx_match (LazyAny # r) s' = Some t" by simp
      from "3.IH"(2) [OF None Cons this] Cons show ?thesis by simp
    qed
  qed
next
  case (4 r s)
  show ?case
  proof (cases s)
    case Nil
    with "4.prems" show ?thesis by simp
  next
    case (Cons c s')
    show ?thesis
    proof (cases "c = CHR 0x22")
      case True
      with "4.prems" Cons show ?thesis by simp
    next
      case False
      show ?thesis
      proof (cases "rx_match (NotQuotePlus # r) s'")
        case (Some u)
        with "4.prems" Cons False have "u = t" by simp
        with "4.IH"(1) [OF Cons False] Some Cons show ?thesis by simp
      next
        case None
        with "4.prems" Cons False have "rx_match r s' = Some t" by simp
        from "4.IH"(2) [OF Cons False None this] Cons show ?thesis by simp
      qed
    qed
  qed
qed

lemma rx_match_Lit_shorter:
  assumes "rx_match (Lit l # r) s = Some t" and "l \<noteq> []"
  shows "length t < length s"
proof -
  from assms(1) have pre: "take (length l) s = l" and m: "rx_match r (drop (length l) s) = Some t"
    by (simp_all split: if_splits)
  from m have "length t \<le> length (drop (length l) s)"
    by (rule rx_match_length)
  then have le: "length t \<le> length s - length l" by simp
  have "length l \<le> length s"
    by (metis pre length_take min.cobounded1)
  moreover from assms(2) have "0 < length l" by simp
  ultimately show ?thesis using le by linarith
qed

declare rx_exec.simps [simp del]

lemma rx_exec_shorter:
  assumes "rx_exec (Lit l # r) s = Some (k, m, rest)" and "l \<noteq> []"
  shows "length rest < length s"
  using assms(1)
proof (induction s arbitrary: k)
  case Nil
  then have "rx_match (Lit l # r) [] = Some rest"
    by (subst (asm) rx_exec.simps) (simp del: rx_match.simps split: option.splits)
  from rx_match_Lit_shorter [OF this assms(2)] show ?case .
next
  case (Cons c s')
  show ?case
  proof (cases "rx_match (Lit l # r) (c # s')")
    case (Some u)
    from Cons.prems have "rest = u"
      by (subst (asm) rx_exec.simps) (simp del: rx_match.simps add: Some)
    with rx_match_Lit_shorter [OF Some assms(2)] show ?thesis by simp
  next
    case None
    from Cons.prems obtain k' where "rx_exec (Lit l # r) s' = Some (k', m, rest)"
      by (subst (asm) rx_exec.simps) (auto simp del: rx_match.simps simp add: None)
    from Cons.IH [OF this] show ?thesis by simp
  qed
qed

text \<open>
  The \<open>while ((match = functionCallRegex.exec(text)) !== null)\<close> loop, with the array
  \<open>functionCalls\<close> as accumulator.
\<close>

function parse_loop :: "host \<Rightarrow> string \<Rightarrow> FunctionCallRequest list \<Rightarrow> FunctionCallRequest list" where
  "parse_loop h s functionCalls =
     (case rx_exec functionCallRegex s of
        None \<Rightarrow> functionCalls
      | Some (k, m, rest) \<Rightarrow>
          (case parse_match h m of
             Some call \<Rightarrow> parse_loop h rest (functionCalls @ [call])
           | None \<Rightarrow> parse_loop h rest functionCalls))"
  by pat_completeness auto
termination
proof (relation "measure (\<lambda>(h, s, acc). length s)")
  show "wf (measure (\<lambda>(h, s, acc). length s))" by simp
next
  fix h :: host and s and functionCalls :: "FunctionCallRequest list" and x2 k y m rest
    and call :: FunctionCallRequest
  assume "rx_exec functionCallRegex s = Some x2" "(k, y) = x2" "(m, rest) = y"
  then have "rx_exec functionCallRegex s = Some (k, m, rest)" by simp
  then have "length rest < length s"
    unfolding functionCallRegex_def by (rule rx_exec_shorter) simp
  then show "((h, rest, functionCalls @ [call]), (h, s, functionCalls)) \<in> measure (\<lambda>(h, s, acc). length s)"
    by simp
next
  fix h :: host and s and functionCalls :: "FunctionCallRequest list" and x2 k y m rest
  assume "rx_exec functionCallRegex s = Some x2" "(k, y) = x2" "(m, rest) = y"
  then have "rx_exec functionCallRegex s = Some (k, m, rest)" by simp
  then have "length rest < length s"
    unfolding functionCallRegex_def by (rule rx_exec_shorter) simp
  then show "((h, rest, functionCalls), (h, s, functionCalls)) \<in> measure (\<lambda>(h, s, acc). length s)"
    by simp
qed

definition parseFunctionCalls :: "host \<Rightarrow> string \<Rightarrow> FunctionCallRequest list" where
  "parseFunctionCalls h text_in = parse_loop h text_in []"

section \<open>The tool invoker (toolExecutor.js)\<close>

text \<open>
  A tool as stored, with the fields the executor reads. A parameter's \<open>name\<close>, \<open>type\<close> and
  \<open>description\<close> are \<open>param_name\<close>, \<open>param_type\<close> and \<open>param_description\<close>; an absent
  \<open>codeImplementation\<close> is \<open>None\<close>.
\<close>

record ParamSpec =
  param_name :: string
  param_type :: string
  required :: bool
  param_description :: "string option"

record ToolDefinition =
  name :: string
  description :: string
  parameters :: "ParamSpec list"
  returnType :: string
  codeImplementation :: "string option"

text \<open>
  White space as \<open>String.prototype.trim\<close> and the class \<open>\s\<close> read it, among the 8-bit
  characters: tab, line feed, vertical tab, form feed, carriage return, space, no-break space.
\<close>

definition js_space :: "char \<Rightarrow> bool" where
  "js_space c \<longleftrightarrow> c \<in> set [CHR 0x09, CHR 0x0A, CHR 0x0B, CHR 0x0C, CHR 0x0D, CHR 0x20, CHR 0xA0]"

definition trim :: "string \<Rightarrow> string" where
  "trim s = rev (dropWhile js_space (rev (dropWhile js_space s)))"

text \<open>
  Object destructuring \<open>const { k, ... } = args\<close>: a TypeError on \<open>null\<close> and
  \<open>undefined\<close> (\<open>k\<close> is the first property named, which the message quotes), otherwise
  the property reader.
\<close>

fun destructure :: "jsval \<Rightarrow> string \<Rightarrow> thrown + (string \<Rightarrow> jsval)" where
  "destructure VUndefined k =
     Inl (JsError (''Cannot destructure property '' @ [CHR 0x27] @ k @ [CHR 0x27] @ '' of ''
                   @ [CHR 0x27] @ ''args'' @ [CHR 0x27] @ '' as it is undefined.''))"
| "destructure VNull k =
     Inl (JsError (''Cannot destructure property '' @ [CHR 0x27] @ k @ [CHR 0x27] @ '' of ''
                   @ [CHR 0x27] @ ''args'' @ [CHR 0x27] @ '' as it is null.''))"
| "destructure (VObj fs) k = Inr (\<lambda>p. case map_of fs p of None \<Rightarrow> VUndefined | Some v \<Rightarrow> v)"
| "destructure v k = Inr (\<lambda>p. VUndefined)"

text \<open>A destructuring default \<open>{ k = d }\<close> applies to \<open>undefined\<close> only.\<close>

definition default_to :: "jsval \<Rightarrow> jsval \<Rightarrow> jsval" where
  "default_to v d = (if v = VUndefined then d else v)"

subsection \<open>executeCustomCode\<close>

definition executeCustomCode :: "host \<Rightarrow> ToolDefinition \<Rightarrow> jsval \<Rightarrow> thrown + tool_value" where
  "executeCustomCode h tool args =
     (case (case codeFactory h (case codeImplementation tool of
                                  Some code \<Rightarrow> code
                                | None \<Rightarrow> ''undefined'') of
              Inl e \<Rightarrow> Inl e
            | Inr (DefinesExecute executeFunction) \<Rightarrow> executeFunction args
            | Inr NoExecute \<Rightarrow>
                Inl (JsError (''Code must define an '' @ [CHR 0x22] @ ''execute'' @ [CHR 0x22] @ '' function''))
            | Inr ReturnsNonFunction \<Rightarrow> Inl (JsError ''executeFunction is not a function'')) of
        Inr result \<Rightarrow> Inr result
      | Inl error \<Rightarrow>
          (case message_text h error of
             Inl t \<Rightarrow> Inl t
           | Inr m \<Rightarrow> Inl (JsError (''Custom code execution failed: '' @ m))))"

subsection \<open>executeCalculator\<close>

text \<open>The characters that \<open>/[^0-9+\-*/().\s]/g\<close> leaves in place.\<close>

definition calculator_char :: "char \<Rightarrow> bool" where
  "calculator_char c \<longleftrightarrow> c \<in> set ''0123456789+-*/().'' \<or> js_space c"

definition sanitize :: "string \<Rightarrow> string" where
  "sanitize expression = filter calculator_char expression"

definition calculator_source :: "string \<Rightarrow> string" where
  "calculator_source sanitized =
     [CHR 0x27] @ ''use strict'' @ [CHR 0x27] @ ''; return ('' @ sanitized @ '')''"

definition calculator_try :: "host \<Rightarrow> jsval \<Rightarrow> thrown + jsval" where
  "calculator_try h expression =
     (case expression of
        VStr e \<Rightarrow>
          (let sanitized = sanitize e in
           if sanitized = [] then Inl (JsError ''Invalid mathematical expression'')
           else (case Function_call h (calculator_source sanitized) of
                   Inl m \<Rightarrow> Inl (JsError m)
                 | Inr result \<Rightarrow>
                     Inr (VObj [(''success'', VBool True), (''expression'', expression),
                                (''result'', result)])))
      | VUndefined \<Rightarrow>
          Inl (JsError (''Cannot read properties of undefined (reading '' @ [CHR 0x27]
                        @ ''replace'' @ [CHR 0x27] @ '')''))
      | VNull \<Rightarrow>
          Inl (JsError (''Cannot read properties of null (reading '' @ [CHR 0x27]
                        @ ''replace'' @ [CHR 0x27] @ '')''))
      | _ \<Rightarrow> Inl (JsError ''expression.replace is not a function''))"

definition executeCalculator :: "host \<Rightarrow> jsval \<Rightarrow> thrown + jsval" where
  "executeCalculator h args =
     (case destructure args ''expression'' of
        Inl e \<Rightarrow> Inl e
      | Inr prop \<Rightarrow>
          (case calculator_try h (prop ''expression'') of
             Inr v \<Rightarrow> Inr v
           | Inl error \<Rightarrow>
               (case message_text h error of
                  Inl t \<Rightarrow> Inl t
                | Inr m \<Rightarrow> Inl (JsError (''Calculation failed: '' @ m)))))"

subsection \<open>executeDataAnalyzer\<close>

text \<open>
  \<open>parseFloat(v)\<close>, \<open>None\<close> for \<open>NaN\<close>. A number is its own value (its text parses
  back to it); any other value goes through its string, whose conversion may throw.
\<close>

definition parseFloat :: "host \<Rightarrow> jsval \<Rightarrow> thrown + real option" where
  "parseFloat h v =
     (case v of
        VNum r \<Rightarrow> Inr (Some r)
      | VNaN \<Rightarrow> Inr None
      | _ \<Rightarrow> (case ToString h v of Inl e \<Rightarrow> Inl e | Inr s \<Rightarrow> Inr (parseFloat_text h s)))"

text \<open>
  The callback of \<open>data.map(d => typeof d === 'number' ? d : parseFloat(d))\<close> on one
  entry (\<open>None\<close> is \<open>NaN\<close>), and the whole \<open>map\<close>, which stops at the first entry on
  which the callback throws.
\<close>

definition numeric_entry :: "host \<Rightarrow> jsval \<Rightarrow> thrown + real option" where
  "numeric_entry h d =
     (case d of VNum r \<Rightarrow> Inr (Some r) | VNaN \<Rightarrow> Inr None | _ \<Rightarrow> parseFloat h d)"

definition numeric_entries :: "host \<Rightarrow> jsval list \<Rightarrow> thrown + real option list" where
  "numeric_entries h data = sequence (map (numeric_entry h) data)"

definition median_of :: "real list \<Rightarrow> real" where
  "median_of sorted_nums =
     (if length sorted_nums mod 2 = 0
      then (sorted_nums ! (length sorted_nums div 2 - 1) + sorted_nums ! (length sorted_nums div 2)) / 2
      else sorted_nums ! (length sorted_nums div 2))"

definition executeDataAnalyzer :: "host \<Rightarrow> jsval \<Rightarrow> thrown + jsval" where
  "executeDataAnalyzer h args =
     (case destructure args ''data'' of
        Inl e \<Rightarrow> Inl e
      | Inr prop \<Rightarrow>
          (let analysis_type = default_to (prop ''analysis_type'') (VStr ''summary'') in
           case prop ''data'' of
             VArr data \<Rightarrow>
               if data = [] then Inl (JsError ''Data must be a non-empty array'')
               else
                 (case numeric_entries h data of
                    Inl e \<Rightarrow> Inl e
                  | Inr mapped \<Rightarrow>
                      (let numbers = List.map_filter (\<lambda>n. n) mapped in
                       if numbers = [] then Inl (JsError ''No valid numeric data found'')
                       else
                         (let sorted_nums = sort numbers;
                              sum_nums = foldl (\<lambda>acc val. acc + val) 0 numbers;
                              mean = sum_nums / real (length numbers);
                              median = median_of sorted_nums;
                              variance = foldl (\<lambda>acc val. acc + (val - mean) ^ 2) 0 numbers
                                         / real (length numbers);
                              stdDev = sqrt variance
                          in Inr (VObj
                               [(''success'', VBool True),
                                (''analysis_type'', analysis_type),
                                (''count'', VNum (real (length numbers))),
                                (''sum'', VNum sum_nums),
                                (''mean'', VNum mean),
                                (''median'', VNum median),
                                (''min'', VNum (sorted_nums ! 0)),
                                (''max'', VNum (sorted_nums ! (length sorted_nums - 1))),
                                (''range'', VNum (sorted_nums ! (length sorted_nums - 1) - sorted_nums ! 0)),
                                (''variance'', VNum variance),
                                (''standardDeviation'', VNum stdDev)]))))
           | _ \<Rightarrow> Inl (JsError ''Data must be a non-empty array'')))"

subsection \<open>executeApiCaller, executeCurrentDateTime, executeUuidGenerator\<close>

definition executeApiCaller :: "host \<Rightarrow> jsval \<Rightarrow> thrown + jsval" where
  "executeApiCaller h args =
     (case destructure args ''url'' of
        Inl e \<Rightarrow> Inl e
      | Inr prop \<Rightarrow>
          (let url = prop ''url'';
               method = default_to (prop ''method'') (VStr ''GET'');
               headers = default_to (prop ''headers'') (VObj []);
               body = default_to (prop ''body'') VNull;
               sent = (if truthy body \<and>
                          (method = VStr ''POST'' \<or> method = VStr ''PUT'' \<or> method = VStr ''PATCH'')
                       then Some body else None)
           in case fetch h url method headers sent of
                Inl m \<Rightarrow> Inl (JsError (''API call failed: '' @ m))
              | Inr response \<Rightarrow>
                  Inr (VObj [(''success'', VBool True),
                             (''status'', status response),
                             (''statusText'', statusText response),
                             (''headers'', response_headers response),
                             (''data'', response_data response)])))"

definition toUpperCase :: "string \<Rightarrow> string" where
  "toUpperCase s =
     map (\<lambda>c. if 97 \<le> (of_char c :: nat) \<and> (of_char c :: nat) \<le> 122
               then char_of ((of_char c :: nat) - 32) else c) s"

definition toLowerCase :: "string \<Rightarrow> string" where
  "toLowerCase s =
     map (\<lambda>c. if 65 \<le> (of_char c :: nat) \<and> (of_char c :: nat) \<le> 90
               then char_of ((of_char c :: nat) + 32) else c) s"

definition resolveTimeZone :: "host \<Rightarrow> jsval \<Rightarrow> thrown + string" where
  "resolveTimeZone h tzInput =
     (if \<not> truthy tzInput then Inr (local_timeZone h)
      else case tzInput of
             VStr tz \<Rightarrow>
               Inr (case map_of [(''IST'', ''Asia/Kolkata''), (''EST'', ''America/New_York''),
                                 (''PST'', ''America/Los_Angeles''), (''CST'', ''America/Chicago''),
                                 (''MST'', ''America/Denver''), (''UTC'', ''UTC''),
                                 (''GMT'', ''Etc/GMT'')] (toUpperCase tz) of
                      Some zone \<Rightarrow> zone
                    | None \<Rightarrow> tz)
           | _ \<Rightarrow> Inl (JsError ''tzInput.toUpperCase is not a function''))"

definition formatFor :: "host \<Rightarrow> string \<Rightarrow> thrown + jsval" where
  "formatFor h tz =
     (case format_date_time h tz of
        Inl m \<Rightarrow> Inl (JsError m)
      | Inr (d, t) \<Rightarrow> Inr (VObj [(''date'', VStr d), (''time'', VStr t), (''timezone'', VStr tz)]))"

definition executeCurrentDateTime :: "host \<Rightarrow> jsval \<Rightarrow> thrown + jsval" where
  "executeCurrentDateTime h args =
     (case destructure (default_to args (VObj [])) ''timezone'' of
        Inl e \<Rightarrow> Inl e
      | Inr prop \<Rightarrow>
          (case resolveTimeZone h (prop ''timezone'') of
             Inl e \<Rightarrow> Inl e
           | Inr targetTz \<Rightarrow>
               (case formatFor h (local_timeZone h) of
                  Inl e \<Rightarrow> Inl e
                | Inr local \<Rightarrow>
                    (case formatFor h targetTz of
                       Inl e \<Rightarrow> Inl e
                     | Inr requested \<Rightarrow>
                         Inr (VObj [(''success'', VBool True),
                                    (''isoUtc'', VStr (now_isoUtc h)),
                                    (''epochSeconds'', VNum (now_epochSeconds h)),
                                    (''local'', local),
                                    (''requested'', requested)])))))"

definition executeUuidGenerator :: "host \<Rightarrow> thrown + jsval" where
  "executeUuidGenerator h = Inr (VObj [(''success'', VBool True), (''uuid'', VStr (randomUUID h))])"

subsection \<open>executeTool\<close>

text \<open>\<open>tool.codeImplementation && tool.codeImplementation.trim()\<close> as a condition.\<close>

definition has_custom_code :: "ToolDefinition \<Rightarrow> bool" where
  "has_custom_code tool =
     (case codeImplementation tool of None \<Rightarrow> False | Some code \<Rightarrow> code \<noteq> [] \<and> trim code \<noteq> [])"

text \<open>The \<open>switch (tool.name)\<close> over the built-in implementations.\<close>

definition builtin_switch :: "host \<Rightarrow> ToolDefinition \<Rightarrow> jsval \<Rightarrow> thrown + jsval" where
  "builtin_switch h tool args =
     (if name tool = ''calculator'' then executeCalculator h args
      else if name tool = ''data_analyzer'' then executeDataAnalyzer h args
      else if name tool = ''api_caller'' then executeApiCaller h args
      else if name tool = ''current_datetime'' then executeCurrentDateTime h args
      else if name tool = ''uuid_generator'' then executeUuidGenerator h
      else Inl (JsError (''Tool '' @ [CHR 0x27] @ name tool @ [CHR 0x27]
                         @ '' is not implemented and has no custom code'')))"

text \<open>A built-in's result as a tool value.\<close>

definition json_result :: "thrown + jsval \<Rightarrow> thrown + tool_value" where
  "json_result r = (case r of Inl e \<Rightarrow> Inl e | Inr v \<Rightarrow> Inr (Json v))"

text \<open>The body of the \<open>try\<close> of \<open>executeTool\<close>.\<close>

definition executeTool_try :: "host \<Rightarrow> ToolDefinition \<Rightarrow> jsval \<Rightarrow> thrown + tool_value" where
  "executeTool_try h tool args =
     (if has_custom_code tool then executeCustomCode h tool args
      else json_result (builtin_switch h tool args))"

definition failure_result :: "jsval \<Rightarrow> string \<Rightarrow> jsval" where
  "failure_result message toolName =
     VObj [(''error'', VBool True), (''message'', message), (''toolName'', VStr toolName)]"

text \<open>
  \<open>executeTool\<close>: the \<open>try\<close>, and the \<open>catch\<close> that reads \<open>error.message\<close> to build the
  failure object; what that read throws leaves the function.
\<close>

definition executeTool :: "host \<Rightarrow> ToolDefinition \<Rightarrow> jsval \<Rightarrow> thrown + tool_value" where
  "executeTool h tool args =
     (case executeTool_try h tool args of
        Inr v \<Rightarrow> Inr v
      | Inl error \<Rightarrow>
          (case message_value error of
             Inl t \<Rightarrow> Inl t
           | Inr m \<Rightarrow> Inr (Json (failure_result m (name tool)))))"

section \<open>The conversation orchestrator (agentExecutor.js)\<close>

definition MAX_ITERATIONS :: nat where
  "MAX_ITERATIONS = 10"

datatype role = User | Model

text \<open>A transcript turn \<open>{ role, parts: [{ text }] }\<close>.\<close>

record ConversationTurn =
  role :: role
  parts_text :: string

text \<open>
  An entry of \<open>toolExecutionLog\<close>; the source's fields \<open>arguments\<close> and \<open>result\<close> are
  \<open>exec_arguments\<close> and \<open>exec_result\<close> here, its \<open>tool\<close> is \<open>call.name\<close>.
\<close>

record ToolExecutionRecord =
  iteration :: nat
  tool :: jsval
  exec_arguments :: jsval
  exec_result :: tool_value

text \<open>
  The object a run resolves to. \<open>error\<close> is \<open>None\<close> where the object has no such key,
  \<open>result\<close> is \<open>None\<close> for \<open>null\<close>.
\<close>

record RunResult =
  success :: bool
  error :: "jsval option"
  result :: "string option"
  iterations :: nat
  toolExecutions :: "ToolExecutionRecord list"
  conversationHistory :: "ConversationTurn list"

text \<open>
  The fields of an agent that the executor reads; \<open>agent_id\<close> and \<open>agent_role\<close> are its
  \<open>id\<close> and \<open>role\<close>, \<open>tools\<close> the identifiers of its tools (empty when absent).
\<close>

record Agent =
  agent_id :: jsval
  agent_role :: string
  goal :: string
  taskDescription :: string
  expectedOutput :: string
  model :: string
  tools :: "nat list"
  ragEnabled :: bool
  ragTopK :: jsval

text \<open>\<open>a || b\<close> on values.\<close>

definition js_or :: "jsval \<Rightarrow> jsval \<Rightarrow> jsval" where
  "js_or a b = (if truthy a then a else b)"

subsection \<open>extractGeminiParameters and buildSystemPrompt\<close>

text \<open>
  \<open>customParams\<close> is an object; the model holds its entries in the order of
  \<open>Object.entries\<close>. \<open>geminiParams\<close> starts empty: an unset key reads \<open>undefined\<close>.
\<close>

record GeminiParams =
  temperature :: jsval
  maxOutputTokens :: jsval
  topP :: jsval
  topK :: jsval

definition empty_params :: GeminiParams where
  "empty_params = \<lparr>temperature = VUndefined, maxOutputTokens = VUndefined,
                    topP = VUndefined, topK = VUndefined\<rparr>"

text \<open>\<open>parseFloat(value) || value\<close>; the conversion inside \<open>parseFloat\<close> may throw.\<close>

definition coerce_param :: "host \<Rightarrow> jsval \<Rightarrow> thrown + jsval" where
  "coerce_param h v =
     (case parseFloat h v of
        Inl e \<Rightarrow> Inl e
      | Inr None \<Rightarrow> Inr v
      | Inr (Some r) \<Rightarrow> Inr (if r \<noteq> 0 then VNum r else v))"

text \<open>
  The test \<open>if (paramMapping[key.toLowerCase()])\<close>. \<open>paramMapping\<close> is an object literal, so
  besides its four own keys the lookup finds what it inherits from \<open>Object.prototype\<close>; of
  those names only \<open>constructor\<close> and \<open>__proto__\<close> are their own lower case.
\<close>

definition mapped_key :: "string \<Rightarrow> bool" where
  "mapped_key key =
     (key \<in> set [''temperature'', ''maxtokens'', ''topp'', ''topk'', ''constructor'', ''__proto__''])"

text \<open>
  One pass of the \<open>forEach\<close> over the entries. For an inherited name the coerced value is
  stored under a key that is none of the four read later.
\<close>

definition set_param :: "host \<Rightarrow> GeminiParams \<Rightarrow> string \<times> jsval \<Rightarrow> thrown + GeminiParams" where
  "set_param h geminiParams entry =
     (let key = toLowerCase (fst entry) in
      if mapped_key key then
        (case coerce_param h (snd entry) of
           Inl e \<Rightarrow> Inl e
         | Inr v \<Rightarrow>
             Inr (if key = ''temperature'' then geminiParams\<lparr>temperature := v\<rparr>
                  else if key = ''maxtokens'' then geminiParams\<lparr>maxOutputTokens := v\<rparr>
                  else if key = ''topp'' then geminiParams\<lparr>topP := v\<rparr>
                  else if key = ''topk'' then geminiParams\<lparr>topK := v\<rparr>
                  else geminiParams))
      else Inr geminiParams)"

text \<open>The \<open>forEach\<close>: the passes in order, up to the first that throws.\<close>

fun set_params :: "host \<Rightarrow> GeminiParams \<Rightarrow> (string \<times> jsval) list \<Rightarrow> thrown + GeminiParams" where
  "set_params h geminiParams [] = Inr geminiParams"
| "set_params h geminiParams (entry # entries) =
     (case set_param h geminiParams entry of
        Inl e \<Rightarrow> Inl e
      | Inr geminiParams' \<Rightarrow> set_params h geminiParams' entries)"

definition extractGeminiParameters ::
  "host \<Rightarrow> (string \<times> jsval) list \<Rightarrow> thrown + GeminiParams" where
  "extractGeminiParameters h customParams = set_params h empty_params customParams"

definition nl :: string where
  "nl = [CHR 0x0A]"

definition contextParams :: "(string \<times> jsval) list \<Rightarrow> (string \<times> jsval) list" where
  "contextParams customParams =
     filter (\<lambda>(key, v). toLowerCase key \<notin> set [''temperature'', ''maxtokens'', ''topp'', ''topk''])
       customParams"

text \<open>The line \<open>\n- ${key}: ${value}\<close> that one context entry adds to the prompt.\<close>

definition context_line :: "host \<Rightarrow> string \<times> jsval \<Rightarrow> thrown + string" where
  "context_line h entry =
     (case ToString h (snd entry) of
        Inl e \<Rightarrow> Inl e
      | Inr s \<Rightarrow> Inr (nl @ ''- '' @ fst entry @ '': '' @ s))"

fun document_lines :: "host \<Rightarrow> nat \<Rightarrow> string list \<Rightarrow> string" where
  "document_lines h i [] = []"
| "document_lines h i (doc # docs) =
     nl @ ''[Document '' @ Number_toString h (real (i + 1)) @ ''] '' @ doc @ nl
     @ document_lines h (i + 1) docs"

text \<open>
  \<open>buildSystemPrompt\<close>. A context value that cannot be converted to a string throws out of
  the function (the \<open>forEach\<close> is outside any \<open>try\<close>); a failure of the vector store is
  caught and leaves the prompt as it was.
\<close>

definition buildSystemPrompt ::
  "host \<Rightarrow> Agent \<Rightarrow> (string \<times> jsval) list \<Rightarrow> string \<Rightarrow> string \<Rightarrow> thrown + string" where
  "buildSystemPrompt h agent customParams apiKey userInput =
     (let prompt0 = ''You are a '' @ agent_role agent @ ''.'' @ nl @ nl
                    @ ''Your goal is: '' @ goal agent @ nl @ nl
                    @ ''Task Description:'' @ nl @ taskDescription agent @ nl @ nl
                    @ ''Expected Output Format:'' @ nl @ expectedOutput agent;
          context = contextParams customParams
      in case sequence (map (context_line h) context) of
           Inl e \<Rightarrow> Inl e
         | Inr context_lines \<Rightarrow>
             (let prompt1 = (if context \<noteq> []
                             then prompt0 @ nl @ nl @ ''Context:'' @ concat context_lines
                             else prompt0)
              in if ragEnabled agent
                 then (case searchSimilarDocuments h (agent_id agent) userInput apiKey
                              (js_or (ragTopK agent) (VNum 3)) of
                         Inl e \<Rightarrow> Inr prompt1
                       | Inr relevantDocs \<Rightarrow>
                           if relevantDocs \<noteq> []
                           then Inr (prompt1 @ nl @ nl @ ''Relevant Knowledge Base Documents:'' @ nl
                                     @ document_lines h 0 relevantDocs)
                           else Inr prompt1)
                 else Inr prompt1))"

subsection \<open>loadAgentTools\<close>

text \<open>
  \<open>getToolById\<close> reads the tool store: the tool, \<open>None\<close> for \<open>undefined\<close> (no tool of that
  identifier), or the error of a request that the store rejects. \<open>Promise.all\<close> rejects
  when one of the reads does.
\<close>

definition loadAgentTools ::
  "(nat \<Rightarrow> thrown + ToolDefinition option) \<Rightarrow> Agent \<Rightarrow> thrown + ToolDefinition list" where
  "loadAgentTools getToolById agent =
     (if tools agent = [] then Inr []
      else (case sequence (map getToolById (tools agent)) of
              Inl e \<Rightarrow> Inl e
            | Inr toolObjects \<Rightarrow> Inr (List.map_filter (\<lambda>t. t) toolObjects)))"

subsection \<open>callGeminiAPI\<close>

record GenerationConfig =
  cfg_temperature :: jsval
  cfg_topK :: jsval
  cfg_topP :: jsval
  cfg_maxOutputTokens :: jsval

record GeminiRequest =
  req_model :: string
  req_apiKey :: string
  contents :: "ConversationTurn list"
  generationConfig :: GenerationConfig

text \<open>
  A candidate of the response: the texts of \<open>content.parts\<close> (\<open>None\<close> for a part without
  text), or \<open>None\<close> when \<open>content\<close> or \<open>content.parts\<close> is missing.
\<close>

record GeminiData =
  candidates :: "(string option list) option list option"
  blockReason :: "string option"

text \<open>
  What the backend does with a request: \<open>fetch\<close> or \<open>response.json()\<close> throws an error
  with a message; the response is not \<open>ok\<close> and carries \<open>error.error?.message\<close>; or the
  response is \<open>ok\<close> and decodes to data.
\<close>

datatype backend_reply = Threw string | NotOk "string option" | OkData GeminiData

definition parameter_line :: "ParamSpec \<Rightarrow> string" where
  "parameter_line param =
     ''  - '' @ param_name param @ '' ('' @ param_type param
     @ (if required param then '', required'' else '', optional'') @ ''): ''
     @ (case param_description param of
          None \<Rightarrow> ''No description''
        | Some d \<Rightarrow> if d = [] then ''No description'' else d)
     @ nl"

definition tool_entry :: "ToolDefinition \<Rightarrow> string" where
  "tool_entry t =
     ''Tool: '' @ name t @ nl
     @ ''Description: '' @ description t @ nl
     @ (if parameters t \<noteq> []
        then ''Parameters:'' @ nl @ concat (map parameter_line (parameters t))
        else [])
     @ ''Returns: '' @ returnType t @ nl @ nl"

definition toolsInstruction :: "ToolDefinition list \<Rightarrow> string" where
  "toolsInstruction ts =
     (if ts \<noteq> []
      then nl @ nl @ ''=== AVAILABLE TOOLS ==='' @ nl
           @ ''You have access to the following tools. When you need to use a tool, output a JSON object in this exact format:'' @ nl
           @ ''{'' @ [CHR 0x22] @ ''function'' @ [CHR 0x22] @ '': '' @ [CHR 0x22] @ ''tool_name''
           @ [CHR 0x22] @ '', '' @ [CHR 0x22] @ ''arguments'' @ [CHR 0x22]
           @ '': {param1: value1, param2: value2}}'' @ nl @ nl
           @ concat (map tool_entry ts)
           @ ''After receiving tool results, continue your reasoning and use the information to complete the task.'' @ nl
           @ ''==================='' @ nl
      else [])"

definition request_messages ::
  "ConversationTurn list \<Rightarrow> ToolDefinition list \<Rightarrow> ConversationTurn list" where
  "request_messages conversation ts =
     (case conversation of
        [] \<Rightarrow> []
      | first # others \<Rightarrow>
          if ts \<noteq> []
          then first\<lparr>parts_text := parts_text first @ toolsInstruction ts\<rparr> # others
          else first # others)"

definition request_config :: "GeminiParams \<Rightarrow> GenerationConfig" where
  "request_config geminiParams =
     \<lparr>cfg_temperature = js_or (temperature geminiParams) (VNum 0.7),
      cfg_topK = js_or (topK geminiParams) (VNum 40),
      cfg_topP = js_or (topP geminiParams) (VNum 0.95),
      cfg_maxOutputTokens = js_or (maxOutputTokens geminiParams) (VNum 8000)\<rparr>"

definition requestBody ::
  "string \<Rightarrow> ConversationTurn list \<Rightarrow> GeminiParams \<Rightarrow> ToolDefinition list \<Rightarrow> string \<Rightarrow> GeminiRequest" where
  "requestBody mdl conversation geminiParams ts apiKey =
     \<lparr>req_model = mdl, req_apiKey = apiKey,
      contents = request_messages conversation ts,
      generationConfig = request_config geminiParams\<rparr>"

text \<open>\<open>Inl\<close> is the message of the error thrown, \<open>Inr\<close> the \<open>text\<close> of the object returned.\<close>

definition callGeminiAPI ::
  "(GeminiRequest \<Rightarrow> backend_reply) \<Rightarrow> string \<Rightarrow> ConversationTurn list \<Rightarrow> GeminiParams
     \<Rightarrow> ToolDefinition list \<Rightarrow> string \<Rightarrow> string + string option" where
  "callGeminiAPI backend mdl conversation geminiParams ts apiKey =
     (case backend (requestBody mdl conversation geminiParams ts apiKey) of
        Threw m \<Rightarrow> Inl m
      | NotOk m \<Rightarrow>
          Inl (case m of
                 None \<Rightarrow> ''Gemini API request failed''
               | Some m' \<Rightarrow> if m' = [] then ''Gemini API request failed'' else m')
      | OkData data \<Rightarrow>
          (case candidates data of
             None \<Rightarrow> Inl (case blockReason data of
                            None \<Rightarrow> ''API returned no candidates''
                          | Some r \<Rightarrow> if r = [] then ''API returned no candidates''
                                      else ''Content blocked: '' @ r)
           | Some [] \<Rightarrow> Inl (case blockReason data of
                               None \<Rightarrow> ''API returned no candidates''
                             | Some r \<Rightarrow> if r = [] then ''API returned no candidates''
                                         else ''Content blocked: '' @ r)
           | Some (candidate # cs) \<Rightarrow>
               (case candidate of
                  None \<Rightarrow> Inl ''API response missing content''
                | Some [] \<Rightarrow> Inl ''API response missing content''
                | Some (part # ps) \<Rightarrow> Inr part)))"

subsection \<open>The loop of executeAgentWithTools\<close>

text \<open>
  The transcript turn that reports a tool's result. Its template literal converts
  \<open>call.name\<close> to a string and serialises the result; either may throw.
\<close>

definition resultMessage ::
  "host \<Rightarrow> FunctionCallRequest \<Rightarrow> tool_value \<Rightarrow> thrown + ConversationTurn" where
  "resultMessage h call toolResult =
     (case ToString h (call_name call) of
        Inl e \<Rightarrow> Inl e
      | Inr printed \<Rightarrow>
          (case JSON_stringify h toolResult of
             Inl e \<Rightarrow> Inl e
           | Inr json \<Rightarrow>
               Inr \<lparr>role = User,
                    parts_text = ''Tool '' @ [CHR 0x22] @ printed @ [CHR 0x22]
                                 @ '' execution result:'' @ nl @ json @ nl @ nl
                                 @ ''Please continue with the task using this information.''\<rparr>))"

text \<open>
  The \<open>for (const call of functionCalls)\<close> loop over the log and the transcript. \<open>Inl\<close>
  is a throw out of the loop, with the two arrays as they stand at that moment. Each pass
  first prints \<open>call.name\<close> in a template literal, which throws where the conversion to
  string does; then looks the tool up, invokes it, pushes the record, and builds and pushes
  the turn.
\<close>

fun execute_calls ::
  "host \<Rightarrow> ToolDefinition list \<Rightarrow> nat \<Rightarrow> FunctionCallRequest list
     \<Rightarrow> ToolExecutionRecord list \<times> ConversationTurn list
     \<Rightarrow> thrown \<times> ToolExecutionRecord list \<times> ConversationTurn list
        + ToolExecutionRecord list \<times> ConversationTurn list" where
  "execute_calls h agentTools it [] (toolExecutionLog, conversation) =
     Inr (toolExecutionLog, conversation)"
| "execute_calls h agentTools it (call # calls) (toolExecutionLog, conversation) =
     (case ToString h (call_name call) of
        Inl e \<Rightarrow> Inl (e, toolExecutionLog, conversation)
      | Inr printed \<Rightarrow>
          (case find (\<lambda>t. VStr (name t) = call_name call) agentTools of
             None \<Rightarrow> execute_calls h agentTools it calls (toolExecutionLog, conversation)
           | Some t \<Rightarrow>
               (case executeTool h t (arguments call) of
                  Inl e \<Rightarrow> Inl (e, toolExecutionLog, conversation)
                | Inr toolResult \<Rightarrow>
                    (case resultMessage h call toolResult of
                       Inl e \<Rightarrow>
                         Inl (e,
                              toolExecutionLog @ [\<lparr>iteration = it, tool = call_name call,
                                                     exec_arguments = arguments call,
                                                     exec_result = toolResult\<rparr>],
                              conversation)
                     | Inr message \<Rightarrow>
                         execute_calls h agentTools it calls
                           (toolExecutionLog @ [\<lparr>iteration = it, tool = call_name call,
                                                  exec_arguments = arguments call,
                                                  exec_result = toolResult\<rparr>],
                            conversation @ [message])))))"

text \<open>
  The \<open>catch (error)\<close> of the loop body: it reads \<open>error.message\<close> for the object it
  returns; what that read throws leaves \<open>executeAgentWithTools\<close>.
\<close>

definition failed_run ::
  "thrown \<Rightarrow> nat \<Rightarrow> ToolExecutionRecord list \<Rightarrow> ConversationTurn list \<Rightarrow> thrown + RunResult" where
  "failed_run err it toolExecutionLog conversation =
     (case message_value err of
        Inl t \<Rightarrow> Inl t
      | Inr m \<Rightarrow>
          Inr \<lparr>success = False, error = Some m, result = None, iterations = it,
               toolExecutions = toolExecutionLog, conversationHistory = conversation\<rparr>)"

text \<open>\<open>conversationHistory[conversationHistory.length - 1]?.parts[0]?.text || null\<close>.\<close>

definition last_text :: "ConversationTurn list \<Rightarrow> string option" where
  "last_text conversation =
     (if conversation = [] then None
      else if parts_text (last conversation) = [] then None
      else Some (parts_text (last conversation)))"

text \<open>
  One pass of the body of \<open>while (iteration < MAX_ITERATIONS)\<close>, entered with the counter
  \<open>it\<close> and incrementing it first: the pass either returns from the function or falls
  through to the next test of the loop condition with the arrays as it left them.
\<close>

datatype pass = Return "thrown + RunResult" | Continue "ConversationTurn list" "ToolExecutionRecord list"

definition loop_body ::
  "host \<Rightarrow> (GeminiRequest \<Rightarrow> backend_reply) \<Rightarrow> string \<Rightarrow> GeminiParams \<Rightarrow> ToolDefinition list
     \<Rightarrow> string \<Rightarrow> nat \<Rightarrow> ConversationTurn list \<Rightarrow> ToolExecutionRecord list \<Rightarrow> pass" where
  "loop_body h backend mdl geminiParams agentTools apiKey it conversation toolExecutionLog =
     (case callGeminiAPI backend mdl conversation geminiParams agentTools apiKey of
        Inl m \<Rightarrow> Return (failed_run (JsError m) (Suc it) toolExecutionLog conversation)
      | Inr None \<Rightarrow>
          Return (failed_run (JsError ''Invalid response from LLM'') (Suc it)
                    toolExecutionLog conversation)
      | Inr (Some response_text) \<Rightarrow>
          if response_text = [] then
            Return (failed_run (JsError ''Invalid response from LLM'') (Suc it)
                      toolExecutionLog conversation)
          else if parseFunctionCalls h response_text = [] then
            Return (Inr \<lparr>success = True, error = None, result = Some response_text,
                         iterations = Suc it, toolExecutions = toolExecutionLog,
                         conversationHistory =
                           conversation @ [\<lparr>role = Model, parts_text = response_text\<rparr>]\<rparr>)
          else
            (case execute_calls h agentTools (Suc it) (parseFunctionCalls h response_text)
                    (toolExecutionLog,
                     conversation @ [\<lparr>role = Model, parts_text = response_text\<rparr>]) of
               Inl (e, log', conversation') \<Rightarrow> Return (failed_run e (Suc it) log' conversation')
             | Inr (log', conversation') \<Rightarrow> Continue conversation' log'))"

function conversation_loop ::
  "host \<Rightarrow> (GeminiRequest \<Rightarrow> backend_reply) \<Rightarrow> string \<Rightarrow> GeminiParams \<Rightarrow> ToolDefinition list
     \<Rightarrow> string \<Rightarrow> nat \<Rightarrow> ConversationTurn list \<Rightarrow> ToolExecutionRecord list
     \<Rightarrow> thrown + RunResult" where
  "conversation_loop h backend mdl geminiParams agentTools apiKey it conversation toolExecutionLog =
     (if it < MAX_ITERATIONS then
        (case loop_body h backend mdl geminiParams agentTools apiKey it conversation
                toolExecutionLog of
           Return r \<Rightarrow> r
         | Continue conversation' log' \<Rightarrow>
             conversation_loop h backend mdl geminiParams agentTools apiKey (Suc it)
               conversation' log')
      else
        Inr \<lparr>success = False,
             error = Some (VStr ''Max iterations reached. Task may be incomplete.''),
             result = last_text conversation, iterations = it,
             toolExecutions = toolExecutionLog, conversationHistory = conversation\<rparr>)"
  by pat_completeness auto
termination
  by (relation "measure (\<lambda>(h, backend, mdl, geminiParams, agentTools, apiKey, it, conversation, lg).
                  MAX_ITERATIONS - it)") auto

text \<open>The first transcript turn of a run.\<close>

definition initial_turn :: "string \<Rightarrow> string \<Rightarrow> ConversationTurn" where
  "initial_turn systemPrompt userInput =
     \<lparr>role = User,
      parts_text = systemPrompt @ nl @ nl @ ''---'' @ nl @ nl @ ''User Request: '' @ userInput\<rparr>"

text \<open>
  \<open>executeAgentWithTools\<close>: the three steps before the loop, each of which may throw out of
  the function, then the loop. \<open>Inl\<close> is a rejected promise, \<open>Inr\<close> the object returned.
\<close>

definition executeAgentWithTools ::
  "host \<Rightarrow> (nat \<Rightarrow> thrown + ToolDefinition option) \<Rightarrow> (GeminiRequest \<Rightarrow> backend_reply)
     \<Rightarrow> Agent \<Rightarrow> string \<Rightarrow> (string \<times> jsval) list \<Rightarrow> string \<Rightarrow> thrown + RunResult" where
  "executeAgentWithTools h getToolById backend agent userInput customParams apiKey =
     (case buildSystemPrompt h agent customParams apiKey userInput of
        Inl e \<Rightarrow> Inl e
      | Inr systemPrompt \<Rightarrow>
          (case extractGeminiParameters h customParams of
             Inl e \<Rightarrow> Inl e
           | Inr geminiParams \<Rightarrow>
               (case loadAgentTools getToolById agent of
                  Inl e \<Rightarrow> Inl e
                | Inr agentTools \<Rightarrow>
                    conversation_loop h backend (model agent) geminiParams agentTools apiKey 0
                      [initial_turn systemPrompt userInput] [])))"

section \<open>Auxiliary notions for the properties\<close>

text \<open>
  The successive matches of the parser's regular expression in a text, each with the
  offset at which it starts: what repeated \<open>exec\<close> calls on a global regular expression
  enumerate. \<open>off\<close> is the offset of the remaining input within the whole text.
\<close>

function all_matches :: "nat \<Rightarrow> string \<Rightarrow> (nat \<times> string) list" where
  "all_matches off s =
     (case rx_exec functionCallRegex s of
        None \<Rightarrow> []
      | Some (k, m, rest) \<Rightarrow> (off + k, m) # all_matches (off + k + length m) rest)"
  by pat_completeness auto
termination
proof (relation "measure (\<lambda>(off, s). length s)")
  show "wf (measure (\<lambda>(off, s). length s))" by simp
next
  fix off :: nat and s x2 k y m rest
  assume "rx_exec functionCallRegex s = Some x2" "(k, y) = x2" "(m, rest) = y"
  then have "rx_exec functionCallRegex s = Some (k, m, rest)" by simp
  then have "length rest < length s"
    unfolding functionCallRegex_def by (rule rx_exec_shorter) simp
  then show "((off + k + length m, rest), (off, s)) \<in> measure (\<lambda>(off, s). length s)"
    by simp
qed

text \<open>
  The parsed calls that name a tool of the agent, each with the tool found, in parse order.
\<close>

definition resolved_calls ::
  "ToolDefinition list \<Rightarrow> FunctionCallRequest list \<Rightarrow> (FunctionCallRequest \<times> ToolDefinition) list" where
  "resolved_calls agentTools calls =
     List.map_filter
       (\<lambda>call. map_option (\<lambda>t. (call, t)) (find (\<lambda>t. VStr (name t) = call_name call) agentTools))
       calls"

text \<open>
  The value \<open>executeTool\<close> hands back when it returns, and the text \<open>JSON.stringify\<close>
  gives for a value when it returns.
\<close>

definition tool_result :: "host \<Rightarrow> ToolDefinition \<Rightarrow> jsval \<Rightarrow> tool_value" where
  "tool_result h t args = (case executeTool h t args of Inr v \<Rightarrow> v | Inl e \<Rightarrow> Json VUndefined)"

definition stringified :: "host \<Rightarrow> tool_value \<Rightarrow> string" where
  "stringified h v = (case JSON_stringify h v of Inr s \<Rightarrow> s | Inl e \<Rightarrow> [])"

text \<open>
  The handling of one parsed call runs to its end: the name converts to a string and, when
  it names a tool of the agent, the invocation returns and its result serialises.
\<close>

definition call_completes :: "host \<Rightarrow> ToolDefinition list \<Rightarrow> FunctionCallRequest \<Rightarrow> bool" where
  "call_completes h agentTools call =
     (case ToString h (call_name call) of
        Inl e \<Rightarrow> False
      | Inr printed \<Rightarrow>
          (case find (\<lambda>t. VStr (name t) = call_name call) agentTools of
             None \<Rightarrow> True
           | Some t \<Rightarrow>
               (case executeTool h t (arguments call) of
                  Inl e \<Rightarrow> False
                | Inr toolResult \<Rightarrow>
                    (case JSON_stringify h toolResult of Inl e \<Rightarrow> False | Inr json \<Rightarrow> True))))"

text \<open>
  The state of the loop after \<open>n\<close> passes of its body that all fell through to the next
  test of the loop condition; \<open>None\<close> when one of them returned.
\<close>

fun run_passes ::
  "host \<Rightarrow> (GeminiRequest \<Rightarrow> backend_reply) \<Rightarrow> string \<Rightarrow> GeminiParams \<Rightarrow> ToolDefinition list
     \<Rightarrow> string \<Rightarrow> nat \<Rightarrow> nat \<Rightarrow> ConversationTurn list \<Rightarrow> ToolExecutionRecord list
     \<Rightarrow> (ConversationTurn list \<times> ToolExecutionRecord list) option" where
  "run_passes h backend mdl geminiParams agentTools apiKey 0 it conversation lg =
     Some (conversation, lg)"
| "run_passes h backend mdl geminiParams agentTools apiKey (Suc n) it conversation lg =
     (case loop_body h backend mdl geminiParams agentTools apiKey it conversation lg of
        Return r \<Rightarrow> None
      | Continue conversation' lg' \<Rightarrow>
          run_passes h backend mdl geminiParams agentTools apiKey n (Suc it) conversation' lg')"

text \<open>
  The log entry and the transcript turn of a call that resolved to a tool, when its
  handling runs to its end.
\<close>

definition execution_record ::
  "host \<Rightarrow> nat \<Rightarrow> FunctionCallRequest \<times> ToolDefinition \<Rightarrow> ToolExecutionRecord" where
  "execution_record h it ct =
     \<lparr>iteration = it, tool = call_name (fst ct), exec_arguments = arguments (fst ct),
      exec_result = tool_result h (snd ct) (arguments (fst ct))\<rparr>"

definition result_turn :: "host \<Rightarrow> FunctionCallRequest \<times> ToolDefinition \<Rightarrow> ConversationTurn" where
  "result_turn h ct =
     \<lparr>role = User,
      parts_text = ''Tool '' @ [CHR 0x22] @ name (snd ct) @ [CHR 0x22]
                   @ '' execution result:'' @ nl
                   @ stringified h (tool_result h (snd ct) (arguments (fst ct))) @ nl @ nl
                   @ ''Please continue with the task using this information.''\<rparr>"

text \<open>
  The value a caller supplied for a generation parameter: that of the last entry whose key
  is the parameter's name up to case. And the parameters without the entries of that name.
\<close>

definition supplied :: "string \<Rightarrow> (string \<times> jsval) list \<Rightarrow> jsval option" where
  "supplied key customParams =
     map_option snd (find (\<lambda>entry. toLowerCase (fst entry) = key) (rev customParams))"

definition omit_param :: "string \<Rightarrow> (string \<times> jsval) list \<Rightarrow> (string \<times> jsval) list" where
  "omit_param key customParams = filter (\<lambda>entry. toLowerCase (fst entry) \<noteq> key) customParams"

section \<open>A concrete host, agent and backends\<close>

definition dq :: string where
  "dq = [CHR 0x22]"

text \<open>The model-facing call \<open>{"function": "calculator", "arguments": {"expression": "2 + 2"}}\<close>.\<close>

definition sample_call_text :: string where
  "sample_call_text =
     ''{'' @ dq @ ''function'' @ dq @ '': '' @ dq @ ''calculator'' @ dq @ '', ''
     @ dq @ ''arguments'' @ dq @ '': {'' @ dq @ ''expression'' @ dq @ '': '' @ dq @ ''2 + 2'' @ dq
     @ ''}}''"

definition sample_call_value :: jsval where
  "sample_call_value =
     VObj [(''function'', VStr ''calculator''),
           (''arguments'', VObj [(''expression'', VStr ''2 + 2'')])]"

definition four_result :: jsval where
  "four_result = VObj [(''success'', VBool True), (''expression'', VStr ''2 + 2''), (''result'', VNum 4)]"

text \<open>
  The bodies of two custom tools: one returns the BigInt \<open>10n\<close> (named \<open>Opaque 0\<close> below),
  the other throws an object whose \<open>message\<close> is an accessor that throws \<open>null\<close>.
\<close>

definition bigint_code :: string where
  "bigint_code = ''async function execute(args) { return 10n; }''"

definition accessor_code :: string where
  "accessor_code = ''async function execute(args) { throw { get message() { throw null; } }; }''"

text \<open>The call \<open>{"function": "big", "arguments": {}}\<close>.\<close>

definition big_call_text :: string where
  "big_call_text =
     ''{'' @ dq @ ''function'' @ dq @ '': '' @ dq @ ''big'' @ dq @ '', ''
     @ dq @ ''arguments'' @ dq @ '': {}}''"

definition big_call_value :: jsval where
  "big_call_value = VObj [(''function'', VStr ''big''), (''arguments'', VObj [])]"

text \<open>
  A host for the concrete runs below. On the inputs those runs reach it answers as a
  JavaScript engine does: \<open>JSON.parse\<close> of the calls above, the value of \<open>(2 + 2)\<close>, the
  TypeError of \<open>(2 + 2 (1))\<close>, the two-space rendering of the calculator's result, the
  TypeError of \<open>JSON.stringify\<close> on a BigInt, the two bodies above, \<open>parseFloat\<close> of
  \<open>"1.5"\<close>, \<open>"abc"\<close> and \<open>"null"\<close>. On every other input it gives a fixed answer that no
  run below reaches.
\<close>

definition sample_host :: host where
  "sample_host =
     \<lparr>JSON_parse = (\<lambda>s. if s = sample_call_text then Some sample_call_value
                       else if s = big_call_text then Some big_call_value
                       else None),
      JSON_stringify =
        (\<lambda>v. if v = Json four_result
             then Inr (''{'' @ nl @ ''  '' @ dq @ ''success'' @ dq @ '': true,'' @ nl
                       @ ''  '' @ dq @ ''expression'' @ dq @ '': '' @ dq @ ''2 + 2'' @ dq @ '','' @ nl
                       @ ''  '' @ dq @ ''result'' @ dq @ '': 4'' @ nl @ ''}'')
             else if v = Opaque 0 then Inl (JsError ''Do not know how to serialize a BigInt'')
             else Inr ''null''),
      Function_call =
        (\<lambda>src. if src = calculator_source ''2 + 2'' then Inr (VNum 4)
               else if src = calculator_source ''2 + 2 (1)'' then Inl ''2 is not a function''
               else Inl ''Unexpected token''),
      codeFactory =
        (\<lambda>code. if code = bigint_code then Inr (DefinesExecute (\<lambda>args. Inr (Opaque 0)))
                else if code = accessor_code
                then Inr (DefinesExecute (\<lambda>args. Inl (MessageThrows (ThrownValue VNull))))
                else Inr NoExecute),
      parseFloat_text = (\<lambda>s. if s = ''1.5'' then Some (3 / 2) else None),
      Number_toString = (\<lambda>r. ''0''),
      fetch = (\<lambda>url method headers body. Inl ''Failed to fetch''),
      now_isoUtc = ''1970-01-01T00:00:00.000Z'',
      now_epochSeconds = 0,
      local_timeZone = ''UTC'',
      format_date_time = (\<lambda>tz. Inr (''1/1/1970'', ''12:00:00 AM'')),
      randomUUID = ''00000000-0000-4000-8000-000000000000'',
      searchSimilarDocuments = (\<lambda>agentId query key topk. Inr [])\<rparr>"

text \<open>The calculator of \<open>DEFAULT_TOOLS\<close>, which carries no \<open>codeImplementation\<close>.\<close>

definition calculator_tool :: ToolDefinition where
  "calculator_tool =
     \<lparr>name = ''calculator'',
      description = ''Perform mathematical calculations and solve equations'',
      parameters = [\<lparr>param_name = ''expression'', param_type = ''string'', required = True,
                     param_description = Some ''The mathematical expression to evaluate''\<rparr>],
      returnType = ''number'',
      codeImplementation = None\<rparr>"

text \<open>Two custom tools with the bodies above.\<close>

definition big_tool :: ToolDefinition where
  "big_tool =
     \<lparr>name = ''big'', description = ''A large number'', parameters = [],
      returnType = ''number'', codeImplementation = Some bigint_code\<rparr>"

definition accessor_tool :: ToolDefinition where
  "accessor_tool =
     \<lparr>name = ''accessor'', description = ''Throws an object with an accessor'', parameters = [],
      returnType = ''object'', codeImplementation = Some accessor_code\<rparr>"

definition sample_store :: "nat \<Rightarrow> thrown + ToolDefinition option" where
  "sample_store toolId =
     (if toolId = 1 then Inr (Some calculator_tool)
      else if toolId = 2 then Inr (Some big_tool)
      else Inr None)"

definition sample_agent :: Agent where
  "sample_agent =
     \<lparr>agent_id = VNum 1, agent_role = ''Math helper'', goal = ''Answer arithmetic questions'',
      taskDescription = ''Use the calculator.'', expectedOutput = ''A number'',
      model = ''gemini-2.5-flash'', tools = [1], ragEnabled = False, ragTopK = VUndefined\<rparr>"

text \<open>An agent with the first custom tool in place of the calculator.\<close>

definition big_agent :: Agent where
  "big_agent = sample_agent\<lparr>agent_id := VNum 2, tools := [2]\<rparr>"

text \<open>The system prompt of both agents (neither has context parameters or a knowledge base).\<close>

definition sample_prompt :: string where
  "sample_prompt =
     ''You are a Math helper.'' @ nl @ nl @ ''Your goal is: Answer arithmetic questions'' @ nl @ nl
     @ ''Task Description:'' @ nl @ ''Use the calculator.'' @ nl @ nl
     @ ''Expected Output Format:'' @ nl @ ''A number''"

definition reply_with :: "string \<Rightarrow> GeminiRequest \<Rightarrow> backend_reply" where
  "reply_with t request = OkData \<lparr>candidates = Some [Some [Some t]], blockReason = None\<rparr>"

definition weather_tool :: ToolDefinition where
  "weather_tool = \<lparr>name = ''weather'', description = ''Look up the weather'', parameters = [],
                   returnType = ''object'', codeImplementation = Some ''  ''\<rparr>"

definition bad_call_text :: string where
  "bad_call_text =
     ''{'' @ dq @ ''function'' @ dq @ '': '' @ dq @ ''x'' @ dq @ '', '' @ dq @ ''arguments'' @ dq
     @ '': {bad}}''"

definition two_call_text :: string where
  "two_call_text = bad_call_text @ '' then '' @ sample_call_text"

definition sample_tool_turn :: ConversationTurn where
  "sample_tool_turn =
     \<lparr>role = User,
      parts_text = ''Tool '' @ dq @ ''calculator'' @ dq @ '' execution result:'' @ nl
        @ ''{'' @ nl @ ''  '' @ dq @ ''success'' @ dq @ '': true,'' @ nl
        @ ''  '' @ dq @ ''expression'' @ dq @ '': '' @ dq @ ''2 + 2'' @ dq @ '','' @ nl
        @ ''  '' @ dq @ ''result'' @ dq @ '': 4'' @ nl @ ''}'' @ nl @ nl
        @ ''Please continue with the task using this information.''\<rparr>"

section \<open>Throws inside and out of the tool invoker\<close>

text \<open>
  The built-ins throw \<open>new Error\<close> or an engine error, each an error object with a
  message; so does every conversion to string.
\<close>

lemma destructure_throws_error: "destructure args k = Inl e \<Longrightarrow> \<exists>m. e = JsError m"
  by (cases args) auto

lemma sequence_Inl: "sequence xs = Inl e \<Longrightarrow> Inl e \<in> set xs"
  by (induction xs) (auto split: sum.splits)

lemma ToString_throws_error: "ToString h v = Inl e \<Longrightarrow> \<exists>m. e = JsError m"
proof (induction h v arbitrary: e rule: ToString.induct)
  case (7 h xs)
  from "7.prems" have
    "sequence (map (\<lambda>x. if x = VUndefined \<or> x = VNull then Inr [] else ToString h x) xs) = Inl e"
    by (simp split: sum.splits)
  from sequence_Inl [OF this] obtain x where
    "x \<in> set xs" "\<not> (x = VUndefined \<or> x = VNull)" "ToString h x = Inl e"
    by (auto split: if_splits)
  with "7.IH" show ?case by blast
qed (auto split: if_splits)

lemma message_text_JsError [simp]: "message_text h (JsError m) = Inr m"
  by (simp add: message_text_def)

lemma get_prop_throws_error: "get_prop v k = Inl e \<Longrightarrow> \<exists>m. e = JsError m"
  by (cases v) auto

lemma message_text_throws:
  "message_text h err = Inl t \<Longrightarrow> (\<exists>m. t = JsError m) \<or> err = MessageThrows t"
  unfolding message_text_def
  by (cases err) (auto split: sum.splits dest: get_prop_throws_error ToString_throws_error)

lemma parseFloat_throws_error: "parseFloat h v = Inl e \<Longrightarrow> \<exists>m. e = JsError m"
  unfolding parseFloat_def
  by (auto simp del: ToString.simps split: jsval.splits sum.splits dest: ToString_throws_error)

lemma numeric_entry_throws_error: "numeric_entry h d = Inl e \<Longrightarrow> \<exists>m. e = JsError m"
  unfolding numeric_entry_def
  by (auto split: jsval.splits dest: parseFloat_throws_error)

lemma numeric_entries_throws_error: "numeric_entries h ds = Inl e \<Longrightarrow> \<exists>m. e = JsError m"
  unfolding numeric_entries_def
  by (auto dest!: sequence_Inl dest: numeric_entry_throws_error [OF sym])

lemma calculator_try_throws_error:
  "calculator_try h expression = Inl e \<Longrightarrow> \<exists>m. e = JsError m"
  unfolding calculator_try_def Let_def
  by (auto split: jsval.splits if_splits sum.splits)

lemma executeCalculator_throws_error:
  "executeCalculator h args = Inl e \<Longrightarrow> \<exists>m. e = JsError m"
  unfolding executeCalculator_def
  by (auto split: sum.splits
      dest: message_text_throws destructure_throws_error calculator_try_throws_error)

lemma executeDataAnalyzer_throws_error:
  "executeDataAnalyzer h args = Inl e \<Longrightarrow> \<exists>m. e = JsError m"
  unfolding executeDataAnalyzer_def Let_def
  by (auto split: sum.splits jsval.splits if_splits
      dest: destructure_throws_error numeric_entries_throws_error)

lemma executeApiCaller_throws_error:
  "executeApiCaller h args = Inl e \<Longrightarrow> \<exists>m. e = JsError m"
  unfolding executeApiCaller_def Let_def
  by (auto split: sum.splits dest: destructure_throws_error)

lemma resolveTimeZone_throws_error:
  "resolveTimeZone h tz = Inl e \<Longrightarrow> \<exists>m. e = JsError m"
  unfolding resolveTimeZone_def
  by (auto split: if_splits jsval.splits)

lemma formatFor_throws_error:
  "formatFor h tz = Inl e \<Longrightarrow> \<exists>m. e = JsError m"
  unfolding formatFor_def
  by (auto split: sum.splits prod.splits)

lemma executeCurrentDateTime_throws_error:
  "executeCurrentDateTime h args = Inl e \<Longrightarrow> \<exists>m. e = JsError m"
  unfolding executeCurrentDateTime_def
  by (auto split: sum.splits
      dest: destructure_throws_error resolveTimeZone_throws_error formatFor_throws_error)

lemma builtin_switch_throws_error:
  "builtin_switch h t args = Inl e \<Longrightarrow> \<exists>m. e = JsError m"
  unfolding builtin_switch_def executeUuidGenerator_def
  by (auto split: if_splits
      dest: executeCalculator_throws_error executeDataAnalyzer_throws_error
        executeApiCaller_throws_error executeCurrentDateTime_throws_error)

text \<open>
  A tool without a custom body always gets a value back from \<open>executeTool\<close>: the payload
  of the built-in or the structured failure.
\<close>

lemma executeTool_builtin:
  assumes "\<not> has_custom_code t"
  shows "executeTool h t args =
     (case builtin_switch h t args of
        Inr v \<Rightarrow> Inr (Json v)
      | Inl e \<Rightarrow> Inr (Json (failure_result (case e of JsError m \<Rightarrow> VStr m | _ \<Rightarrow> VUndefined) (name t))))"
proof (cases "builtin_switch h t args")
  case (Inr v)
  with assms show ?thesis by (simp add: executeTool_def executeTool_try_def json_result_def)
next
  case (Inl e)
  then obtain m where "e = JsError m" using builtin_switch_throws_error by blast
  with Inl assms show ?thesis by (simp add: executeTool_def executeTool_try_def json_result_def)
qed

text \<open>
  What \<open>executeCustomCode\<close> throws is a new error with a message, except when reading
  \<open>error.message\<close> in its \<open>catch\<close> itself throws: then it throws what that read threw.
\<close>

lemma executeCustomCode_throws:
  assumes "executeCustomCode h t args = Inl e"
  shows "(\<exists>m. e = JsError m)
       \<or> (\<exists>code f. codeFactory h code = Inr (DefinesExecute f) \<and> f args = Inl (MessageThrows e))
       \<or> (\<exists>code. codeFactory h code = Inl (MessageThrows e))"
  using assms unfolding executeCustomCode_def
  by (auto split: sum.splits body_outcome.splits dest!: message_text_throws)

text \<open>
  \<open>executeTool\<close> returns whenever the message of what its \<open>try\<close> threw can be read.
\<close>

lemma executeTool_returns:
  assumes "executeTool_try h t args = Inr v \<or>
           (\<exists>e m. executeTool_try h t args = Inl e \<and> message_value e = Inr m)"
  shows "\<exists>v. executeTool h t args = Inr v"
  using assms by (auto simp: executeTool_def)

lemma accessor_custom_code:
  "executeCustomCode sample_host accessor_tool args = Inl (ThrownValue VNull)"
  by (simp add: executeCustomCode_def accessor_tool_def sample_host_def message_text_def
      accessor_code_def bigint_code_def)

lemma accessor_has_custom_code: "has_custom_code accessor_tool"
  unfolding has_custom_code_def accessor_tool_def accessor_code_def by code_simp

text \<open>
  C3 fails on a custom tool whose body throws an object with a \<open>message\<close> accessor that
  throws \<open>null\<close>, \<open>async function execute(args) { throw { get message() { throw null; } }; }\<close>.
  The \<open>catch\<close> of \<open>executeCustomCode\<close> reads \<open>error.message\<close> and so throws \<open>null\<close>; the
  \<open>catch\<close> of \<open>executeTool\<close> reads \<open>error.message\<close> of \<open>null\<close>, and the TypeError of that
  read leaves \<open>executeTool\<close>: the caller receives no value.
\<close>

theorem executeTool_throws_on_accessor:
  "executeCustomCode sample_host accessor_tool (VObj []) = Inl (ThrownValue VNull)
   \<and> executeTool sample_host accessor_tool (VObj [])
     = Inl (JsError (''Cannot read properties of null (reading '' @ [CHR 0x27] @ ''message''
                     @ [CHR 0x27] @ '')''))"
  by (simp add: executeTool_def executeTool_try_def accessor_has_custom_code accessor_custom_code)

section \<open>Dispatch of tools without a body, and the calculator\<close>

lemma js_space_simps [simp]:
  "js_space CHR '' ''" "\<not> js_space CHR ''2''" "\<not> js_space CHR ''+''"
  by (simp_all add: js_space_def)

lemma sanitize_alert: "sanitize ''2 + 2; alert(1)'' = ''2 + 2 (1)''"
  by (simp add: sanitize_def calculator_char_def js_space_def)

lemma sanitize_plain: "sanitize ''2 + 2'' = ''2 + 2''"
  by (simp add: sanitize_def calculator_char_def js_space_def)

lemma trim_empty: "trim [] = []"
  by (simp add: trim_def)

text \<open>
  C4, as stated, fails: the tool named \<open>calculator\<close> with the explicitly blank body \<open>""\<close>
  is dispatched to the built-in calculator and yields its success payload, not a failure.
\<close>

theorem blank_calculator_runs_builtin:
  "executeTool sample_host (calculator_tool\<lparr>codeImplementation := Some []\<rparr>)
     (VObj [(''expression'', VStr ''2 + 2'')])
   = Inr (Json (VObj [(''success'', VBool True), (''expression'', VStr ''2 + 2''),
                      (''result'', VNum 4)]))"
  by (simp add: executeTool_def executeTool_try_def has_custom_code_def calculator_tool_def
      builtin_switch_def executeCalculator_def calculator_try_def sanitize_plain sample_host_def
      json_result_def)

text \<open>
  C5, as stated, fails on \<open>"2 + 2; alert(1)"\<close>: the parentheses and the digit of
  \<open>alert(1)\<close> belong to the characters kept, so the text evaluated is \<open>2 + 2 (1)\<close>, a
  call of the number 2, and the calculator throws instead of returning 4.
\<close>

theorem calculator_alert_cex:
  "sanitize ''2 + 2; alert(1)'' = ''2 + 2 (1)'' \<and>
   executeCalculator sample_host (VObj [(''expression'', VStr ''2 + 2; alert(1)'')])
   = Inl (JsError ''Calculation failed: 2 is not a function'')"
  by (simp add: executeCalculator_def calculator_try_def sanitize_alert sample_host_def
      calculator_source_def)

lemma calculator_general:
  assumes "map_of fs ''expression'' = Some (VStr e)"
  shows "executeCalculator h (VObj fs) =
     (if sanitize e = [] then Inl (JsError ''Calculation failed: Invalid mathematical expression'')
      else case Function_call h (calculator_source (sanitize e)) of
             Inl m \<Rightarrow> Inl (JsError (''Calculation failed: '' @ m))
           | Inr r \<Rightarrow> Inr (VObj [(''success'', VBool True), (''expression'', VStr e), (''result'', r)]))"
  using assms
  by (simp add: executeCalculator_def calculator_try_def Let_def split: sum.splits)

lemma fetch_codeFactory: "fetch (h\<lparr>codeFactory := f\<rparr>) = fetch h"
  by simp

lemma formatFor_codeFactory: "formatFor (h\<lparr>codeFactory := f\<rparr>) tz = formatFor h tz"
  by (simp add: formatFor_def)

lemma resolveTimeZone_codeFactory: "resolveTimeZone (h\<lparr>codeFactory := f\<rparr>) tz = resolveTimeZone h tz"
  by (simp add: resolveTimeZone_def)

lemma executeCurrentDateTime_codeFactory: "executeCurrentDateTime (h\<lparr>codeFactory := f\<rparr>) args = executeCurrentDateTime h args"
  by (simp add: executeCurrentDateTime_def formatFor_codeFactory resolveTimeZone_codeFactory cong: sum.case_cong)

lemma executeApiCaller_codeFactory: "executeApiCaller (h\<lparr>codeFactory := f\<rparr>) args = executeApiCaller h args"
  by (simp add: executeApiCaller_def cong: sum.case_cong)

lemma calculator_try_codeFactory: "calculator_try (h\<lparr>codeFactory := f\<rparr>) e = calculator_try h e"
  by (cases e) (simp_all add: calculator_try_def Let_def cong: sum.case_cong)

lemma ToString_codeFactory [simp]: "ToString (h\<lparr>codeFactory := f\<rparr>) v = ToString h v"
proof (induction h v rule: ToString.induct)
  case (7 h xs)
  have "map (\<lambda>x. if x = VUndefined \<or> x = VNull then Inr [] else ToString (h\<lparr>codeFactory := f\<rparr>) x) xs
      = map (\<lambda>x. if x = VUndefined \<or> x = VNull then Inr [] else ToString h x) xs"
    by (rule map_cong) (auto simp: "7.IH")
  then show ?case by (simp only: ToString.simps)
qed simp_all

lemma message_text_codeFactory [simp]:
  "message_text (h\<lparr>codeFactory := f\<rparr>) e = message_text h e"
  by (simp add: message_text_def del: ToString.simps cong: sum.case_cong)

lemma executeCalculator_codeFactory: "executeCalculator (h\<lparr>codeFactory := f\<rparr>) args = executeCalculator h args"
  by (simp only: executeCalculator_def calculator_try_codeFactory message_text_codeFactory)

lemma parseFloat_codeFactory [simp]:
  "parseFloat (h\<lparr>codeFactory := f\<rparr>) v = parseFloat h v"
  by (simp add: parseFloat_def del: ToString.simps cong: jsval.case_cong sum.case_cong)

lemma numeric_entry_codeFactory [simp]:
  "numeric_entry (h\<lparr>codeFactory := f\<rparr>) = numeric_entry h"
  by (rule ext) (simp add: numeric_entry_def cong: jsval.case_cong)

lemma executeDataAnalyzer_codeFactory: "executeDataAnalyzer (h\<lparr>codeFactory := f\<rparr>) args = executeDataAnalyzer h args"
  by (simp only: executeDataAnalyzer_def numeric_entries_def numeric_entry_codeFactory)

lemma builtin_switch_codeFactory:
  "builtin_switch (h\<lparr>codeFactory := f\<rparr>) t args = builtin_switch h t args"
  by (simp add: builtin_switch_def executeCurrentDateTime_codeFactory executeApiCaller_codeFactory executeCalculator_codeFactory executeDataAnalyzer_codeFactory executeUuidGenerator_def)

lemma blank_no_custom:
  assumes "codeImplementation t = None \<or> (\<exists>code. codeImplementation t = Some code \<and> trim code = [])"
  shows "\<not> has_custom_code t"
  using assms by (auto simp: has_custom_code_def)

text \<open>
  C4, amended. A tool whose body is absent, empty or blank is never run through the custom
  path (its result does not depend on what compiling a body would give); it is dispatched
  on its name: each of the five built-in names to its built-in implementation, and any
  other name to the structured failure "Tool '<name>' is not implemented and has no custom
  code".
\<close>

theorem blank_body_dispatch:
  assumes "codeImplementation t = None \<or> (\<exists>code. codeImplementation t = Some code \<and> trim code = [])"
  shows "executeTool (h\<lparr>codeFactory := f\<rparr>) t args = executeTool h t args
    \<and> (name t = ''calculator'' \<longrightarrow>
         executeTool_try h t args = json_result (executeCalculator h args))
    \<and> (name t = ''data_analyzer'' \<longrightarrow>
         executeTool_try h t args = json_result (executeDataAnalyzer h args))
    \<and> (name t = ''api_caller'' \<longrightarrow>
         executeTool_try h t args = json_result (executeApiCaller h args))
    \<and> (name t = ''current_datetime'' \<longrightarrow>
         executeTool_try h t args = json_result (executeCurrentDateTime h args))
    \<and> (name t = ''uuid_generator'' \<longrightarrow>
         executeTool_try h t args = json_result (executeUuidGenerator h))
    \<and> (name t \<notin> set [''calculator'', ''data_analyzer'', ''api_caller'', ''current_datetime'',
                       ''uuid_generator''] \<longrightarrow>
         executeTool h t args =
           Inr (Json (VObj [(''error'', VBool True),
                            (''message'', VStr (''Tool '' @ [CHR 0x27] @ name t @ [CHR 0x27]
                                                @ '' is not implemented and has no custom code'')),
                            (''toolName'', VStr (name t))])))"
proof -
  from assms have nc: "\<not> has_custom_code t" by (rule blank_no_custom)
  have try_eq: "executeTool_try h' t args = json_result (builtin_switch h' t args)" for h'
    using nc by (simp add: executeTool_try_def)
  have "executeTool (h\<lparr>codeFactory := f\<rparr>) t args = executeTool h t args"
    by (simp add: executeTool_def try_eq builtin_switch_codeFactory)
  moreover have "name t = ''calculator'' \<longrightarrow>
         executeTool_try h t args = json_result (executeCalculator h args)"
    by (simp add: try_eq builtin_switch_def)
  moreover have "name t = ''data_analyzer'' \<longrightarrow>
         executeTool_try h t args = json_result (executeDataAnalyzer h args)"
    by (simp add: try_eq builtin_switch_def)
  moreover have "name t = ''api_caller'' \<longrightarrow>
         executeTool_try h t args = json_result (executeApiCaller h args)"
    by (simp add: try_eq builtin_switch_def)
  moreover have "name t = ''current_datetime'' \<longrightarrow>
         executeTool_try h t args = json_result (executeCurrentDateTime h args)"
    by (simp add: try_eq builtin_switch_def)
  moreover have "name t = ''uuid_generator'' \<longrightarrow>
         executeTool_try h t args = json_result (executeUuidGenerator h)"
    by (simp add: try_eq builtin_switch_def)
  moreover have "name t \<notin> set [''calculator'', ''data_analyzer'', ''api_caller'', ''current_datetime'',
                       ''uuid_generator''] \<longrightarrow>
         executeTool h t args =
           Inr (Json (VObj [(''error'', VBool True),
                            (''message'', VStr (''Tool '' @ [CHR 0x27] @ name t @ [CHR 0x27]
                                                @ '' is not implemented and has no custom code'')),
                            (''toolName'', VStr (name t))]))"
    by (simp add: executeTool_def try_eq builtin_switch_def failure_result_def json_result_def)
  ultimately show ?thesis by blast
qed

lemma trim_blank: "trim ''  '' = []"
  by (simp add: trim_def js_space_def)

theorem blank_body_dispatch_witness:
  "executeTool_try sample_host (calculator_tool\<lparr>codeImplementation := Some []\<rparr>)
      (VObj [(''expression'', VStr ''2 + 2'')])
    = json_result (executeCalculator sample_host (VObj [(''expression'', VStr ''2 + 2'')]))
   \<and> executeTool sample_host weather_tool (VObj [])
    = Inr (Json (VObj [(''error'', VBool True),
                       (''message'', VStr ''Tool 'weather' is not implemented and has no custom code''),
                       (''toolName'', VStr ''weather'')]))"
proof -
  have a: "codeImplementation (calculator_tool\<lparr>codeImplementation := Some []\<rparr>) = None \<or>
      (\<exists>code. codeImplementation (calculator_tool\<lparr>codeImplementation := Some []\<rparr>) = Some code
           \<and> trim code = [])"
    by (simp add: trim_empty)
  have b: "codeImplementation weather_tool = None \<or>
      (\<exists>code. codeImplementation weather_tool = Some code \<and> trim code = [])"
    by (simp add: weather_tool_def trim_blank)
  from blank_body_dispatch [OF a, where h = sample_host and args = "VObj [(''expression'', VStr ''2 + 2'')]"]
  have 1: "executeTool_try sample_host (calculator_tool\<lparr>codeImplementation := Some []\<rparr>)
      (VObj [(''expression'', VStr ''2 + 2'')])
    = json_result (executeCalculator sample_host (VObj [(''expression'', VStr ''2 + 2'')]))"
    by (simp add: calculator_tool_def)
  from blank_body_dispatch [OF b, where h = sample_host and args = "VObj []"]
  have 2: "executeTool sample_host weather_tool (VObj [])
    = Inr (Json (VObj [(''error'', VBool True),
                       (''message'', VStr ''Tool 'weather' is not implemented and has no custom code''),
                       (''toolName'', VStr ''weather'')]))"
    by (simp add: weather_tool_def)
  from 1 2 show ?thesis by simp
qed

text \<open>
  C5, amended. On \<open>"2 + 2"\<close> the calculator returns success with the result 4 of the
  engine and the original expression. On every expression it removes exactly the characters
  other than digits, \<open>+ - * / ( ) .\<close> and white space, and evaluates what is left: for
  \<open>"2 + 2; alert(1)"\<close> that is \<open>2 + 2 (1)\<close>. When nothing is left it throws
  "Calculation failed: Invalid mathematical expression" without evaluating anything.
\<close>

theorem calculator_behaviour:
  "(Function_call h (calculator_source ''2 + 2'') = Inr (VNum 4) \<longrightarrow>
      executeCalculator h (VObj [(''expression'', VStr ''2 + 2'')])
      = Inr (VObj [(''success'', VBool True), (''expression'', VStr ''2 + 2''), (''result'', VNum 4)]))
   \<and> sanitize e = filter (\<lambda>c. c \<in> set ''0123456789+-*/().'' \<or> js_space c) e
   \<and> sanitize ''2 + 2; alert(1)'' = ''2 + 2 (1)''
   \<and> executeCalculator h (VObj [(''expression'', VStr e)])
     = (if sanitize e = []
        then Inl (JsError ''Calculation failed: Invalid mathematical expression'')
        else case Function_call h (calculator_source (sanitize e)) of
               Inl m \<Rightarrow> Inl (JsError (''Calculation failed: '' @ m))
             | Inr r \<Rightarrow> Inr (VObj [(''success'', VBool True), (''expression'', VStr e),
                                   (''result'', r)]))"
proof -
  have "Function_call h (calculator_source ''2 + 2'') = Inr (VNum 4) \<longrightarrow>
      executeCalculator h (VObj [(''expression'', VStr ''2 + 2'')])
      = Inr (VObj [(''success'', VBool True), (''expression'', VStr ''2 + 2''), (''result'', VNum 4)])"
    by (simp add: calculator_general sanitize_plain)
  moreover have "sanitize e = filter (\<lambda>c. c \<in> set ''0123456789+-*/().'' \<or> js_space c) e"
  proof -
    have "calculator_char = (\<lambda>c. c \<in> set ''0123456789+-*/().'' \<or> js_space c)"
      by (rule ext) (simp only: calculator_char_def)
    then show ?thesis by (simp only: sanitize_def)
  qed
  moreover note sanitize_alert
  moreover have "executeCalculator h (VObj [(''expression'', VStr e)])
     = (if sanitize e = []
        then Inl (JsError ''Calculation failed: Invalid mathematical expression'')
        else case Function_call h (calculator_source (sanitize e)) of
               Inl m \<Rightarrow> Inl (JsError (''Calculation failed: '' @ m))
             | Inr r \<Rightarrow> Inr (VObj [(''success'', VBool True), (''expression'', VStr e),
                                   (''result'', r)]))"
    by (rule calculator_general) simp
  ultimately show ?thesis by blast
qed

theorem calculator_behaviour_witness:
  "executeCalculator sample_host (VObj [(''expression'', VStr ''2 + 2'')])
     = Inr (VObj [(''success'', VBool True), (''expression'', VStr ''2 + 2''), (''result'', VNum 4)])
   \<and> executeCalculator sample_host (VObj [(''expression'', VStr ''abc'')])
     = Inl (JsError ''Calculation failed: Invalid mathematical expression'')"
proof -
  have hyp: "Function_call sample_host (calculator_source ''2 + 2'') = Inr (VNum 4)"
    by (simp add: sample_host_def)
  have e: "sanitize ''abc'' = []"
    by (simp add: sanitize_def calculator_char_def js_space_def)
  from calculator_behaviour [of sample_host "''abc''"] hyp e show ?thesis
    by simp
qed

section \<open>The data analyzer\<close>
















section \<open>The function-call parser\<close>

declare parse_loop.simps [simp del] all_matches.simps [simp del]

lemma rx_match_suffix: "rx_match items s = Some t \<Longrightarrow> \<exists>p. s = p @ t"
proof (induction items s arbitrary: t rule: rx_match.induct)
  case (1 s)
  then show ?case by simp
next
  case (2 l r s)
  from "2.prems" have pre: "take (length l) s = l"
    and m: "rx_match r (drop (length l) s) = Some t"
    by (simp_all split: if_splits)
  from "2.IH" [OF pre m] obtain p where "drop (length l) s = p @ t" by blast
  then have "s = (take (length l) s @ p) @ t"
    by (metis append.assoc append_take_drop_id)
  then show ?case by blast
next
  case (3 r s)
  show ?case
  proof (cases "rx_match r s")
    case (Some u)
    with "3.prems" have "u = t" by simp
    with "3.IH"(1) Some show ?thesis by simp
  next
    case None
    show ?thesis
    proof (cases s)
      case Nil
      with None "3.prems" show ?thesis by simp
    next
      case (Cons c s')
      with None "3.prems" have "rx_match (LazyAny # r) s' = Some t" by simp
      from "3.IH"(2) [OF None Cons this] obtain p where "s' = p @ t" by blast
      with Cons have "s = (c # p) @ t" by simp
      then show ?thesis by blast
    qed
  qed
next
  case (4 r s)
  show ?case
  proof (cases s)
    case Nil
    with "4.prems" show ?thesis by simp
  next
    case (Cons c s')
    show ?thesis
    proof (cases "c = CHR 0x22")
      case True
      with "4.prems" Cons show ?thesis by simp
    next
      case False
      have "\<exists>p. s' = p @ t"
      proof (cases "rx_match (NotQuotePlus # r) s'")
        case (Some u)
        with "4.prems" Cons False have "u = t" by simp
        with "4.IH"(1) [OF Cons False] Some show ?thesis by simp
      next
        case None
        with "4.prems" Cons False have "rx_match r s' = Some t" by simp
        from "4.IH"(2) [OF Cons False None this] show ?thesis .
      qed
      then obtain p where "s' = p @ t" by blast
      with Cons have "s = (c # p) @ t" by simp
      then show ?thesis by blast
    qed
  qed
qed

lemma rx_exec_split:
  assumes "rx_exec (Lit l # r) s = Some (k, m, rest)" and "l \<noteq> []"
  shows "s = take k s @ m @ rest \<and> length (take k s) = k \<and> m \<noteq> []"
  using assms(1)
proof (induction s arbitrary: k)
  case Nil
  then have "rx_match (Lit l # r) [] = Some rest"
    by (subst (asm) rx_exec.simps) (simp del: rx_match.simps split: option.splits)
  from rx_match_Lit_shorter [OF this assms(2)] show ?case by simp
next
  case (Cons c s')
  show ?case
  proof (cases "rx_match (Lit l # r) (c # s')")
    case (Some u)
    from Cons.prems have eq: "k = 0" "m = take (length (c # s') - length u) (c # s')" "rest = u"
      by (subst (asm) rx_exec.simps, simp del: rx_match.simps add: Some)+
    from rx_match_suffix [OF Some] obtain p where p: "c # s' = p @ u" by blast
    then have "m = p" using eq(2) by simp
    moreover from rx_match_Lit_shorter [OF Some assms(2)] p have "p \<noteq> []" by auto
    ultimately show ?thesis using p eq by simp
  next
    case None
    from Cons.prems obtain k' where k': "rx_exec (Lit l # r) s' = Some (k', m, rest)" "k = Suc k'"
      by (subst (asm) rx_exec.simps) (auto simp del: rx_match.simps simp add: None)
    from Cons.IH [OF k'(1)] k'(2) show ?thesis by simp
  qed
qed

lemma functionCallRegex_split:
  assumes "rx_exec functionCallRegex s = Some (k, m, rest)"
  shows "s = take k s @ m @ rest \<and> length (take k s) = k \<and> m \<noteq> []"
  using assms unfolding functionCallRegex_def by (rule rx_exec_split) simp

lemma parse_loop_matches:
  "parse_loop h s acc = acc @ List.map_filter (parse_match h) (map snd (all_matches off s))"
proof (induction h s acc arbitrary: off rule: parse_loop.induct)
  case (1 h s acc)
  show ?case
  proof (cases "rx_exec functionCallRegex s")
    case None
    then show ?thesis
      by (subst parse_loop.simps, subst all_matches.simps) (simp add: List.map_filter_def)
  next
    case (Some x)
    obtain k m rest where x: "x = (k, m, rest)" by (cases x) auto
    from Some x have ex: "rx_exec functionCallRegex s = Some (k, m, rest)" by simp
    show ?thesis
    proof (cases "parse_match h m")
      case None
      from "1.IH"(1) [OF ex refl refl None]
      have "parse_loop h rest acc
        = acc @ List.map_filter (parse_match h) (map snd (all_matches (off + k + length m) rest))" .
      with ex None show ?thesis
        by (subst parse_loop.simps, subst all_matches.simps) (simp add: List.map_filter_def)
    next
      case (Some call)
      from "1.IH"(2) [OF ex refl refl Some]
      have "parse_loop h rest (acc @ [call])
        = (acc @ [call]) @ List.map_filter (parse_match h) (map snd (all_matches (off + k + length m) rest))" .
      with ex Some show ?thesis
        by (subst parse_loop.simps, subst all_matches.simps) (simp add: List.map_filter_def)
    qed
  qed
qed

lemma all_matches_positions:
  "\<forall>(p, m) \<in> set (all_matches off s).
      off \<le> p \<and> m \<noteq> [] \<and> p + length m \<le> off + length s
      \<and> take (length m) (drop (p - off) s) = m"
proof (induction off s rule: all_matches.induct)
  case (1 off s)
  show ?case
  proof (cases "rx_exec functionCallRegex s")
    case None
    then show ?thesis by (subst all_matches.simps) simp
  next
    case (Some x)
    obtain k m rest where x: "x = (k, m, rest)" by (cases x) auto
    from functionCallRegex_split [OF Some [unfolded x]]
    have sp: "s = take k s @ m @ rest" "length (take k s) = k" "m \<noteq> []" by simp_all
    from sp(1) sp(2) have len: "length s = k + length m + length rest"
      by (metis length_append add.assoc)
    from sp(1) sp(2) have dk: "drop k s = m @ rest"
      by (metis append_eq_conv_conj)
    have IH: "\<forall>(p, m') \<in> set (all_matches (off + k + length m) rest).
      off + k + length m \<le> p \<and> m' \<noteq> [] \<and> p + length m' \<le> off + k + length m + length rest
      \<and> take (length m') (drop (p - (off + k + length m)) rest) = m'"
      using "1.IH" [OF Some [unfolded x] refl refl] by simp
    have am: "all_matches off s = (off + k, m) # all_matches (off + k + length m) rest"
      by (subst all_matches.simps) (simp add: Some x)
    have head: "off \<le> off + k \<and> m \<noteq> [] \<and> off + k + length m \<le> off + length s
      \<and> take (length m) (drop (off + k - off) s) = m"
      using sp(3) len dk by simp
    have tail: "off \<le> p \<and> m' \<noteq> [] \<and> p + length m' \<le> off + length s
      \<and> take (length m') (drop (p - off) s) = m'"
      if "(p, m') \<in> set (all_matches (off + k + length m) rest)" for p m'
    proof -
      from IH that have a: "off + k + length m \<le> p" "m' \<noteq> []"
        "p + length m' \<le> off + k + length m + length rest"
        "take (length m') (drop (p - (off + k + length m)) rest) = m'" by auto
      have "drop (p - off) s = drop (p - off - k) (drop k s)"
        using a(1) by simp
      also have "\<dots> = drop (p - off - k - length m) rest"
        using a(1) dk by simp
      finally have "drop (p - off) s = drop (p - (off + k + length m)) rest"
        by (simp add: algebra_simps)
      with a len show ?thesis by simp
    qed
    show ?thesis unfolding am using head tail by auto
  qed
qed

lemma all_matches_sorted:
  "sorted_wrt (\<lambda>a b. fst a + length (snd a) \<le> fst b) (all_matches off s)"
proof (induction off s rule: all_matches.induct)
  case (1 off s)
  show ?case
  proof (cases "rx_exec functionCallRegex s")
    case None
    then show ?thesis by (subst all_matches.simps) simp
  next
    case (Some x)
    obtain k m rest where x: "x = (k, m, rest)" by (cases x) auto
    have am: "all_matches off s = (off + k, m) # all_matches (off + k + length m) rest"
      by (subst all_matches.simps) (simp add: Some x)
    have IH: "sorted_wrt (\<lambda>a b. fst a + length (snd a) \<le> fst b)
        (all_matches (off + k + length m) rest)"
      using "1.IH" [OF Some [unfolded x] refl refl] by simp
    have "\<forall>(p, m') \<in> set (all_matches (off + k + length m) rest). off + k + length m \<le> p"
      using all_matches_positions [of "off + k + length m" rest] by auto
    with IH show ?thesis unfolding am by auto
  qed
qed

text \<open>
  C8. \<open>parseFunctionCalls\<close> returns, in the order of the matches of its regular expression
  in the text, the request of every match that parses: the matches are found at increasing,
  non-overlapping offsets of the text, where each of them stands; a match on which
  \<open>JSON.parse\<close> (or a property read) throws contributes nothing and the later matches are
  still parsed; a text in which the regular expression finds nothing gives the empty list.
\<close>

theorem parseFunctionCalls_in_order:
  "parseFunctionCalls h input = List.map_filter (parse_match h) (map snd (all_matches 0 input))
   \<and> sorted_wrt (\<lambda>a b. fst a + length (snd a) \<le> fst b) (all_matches 0 input)
   \<and> (\<forall>(p, m) \<in> set (all_matches 0 input). m \<noteq> [] \<and> take (length m) (drop p input) = m)
   \<and> (rx_exec functionCallRegex input = None \<longrightarrow> parseFunctionCalls h input = [])"
proof (intro conjI impI)
  show "parseFunctionCalls h input = List.map_filter (parse_match h) (map snd (all_matches 0 input))"
    using parse_loop_matches [of h input "[]" 0] unfolding parseFunctionCalls_def by simp
next
  show "sorted_wrt (\<lambda>a b. fst a + length (snd a) \<le> fst b) (all_matches 0 input)"
    by (rule all_matches_sorted)
next
  show "\<forall>(p, m) \<in> set (all_matches 0 input). m \<noteq> [] \<and> take (length m) (drop p input) = m"
    using all_matches_positions [of 0 input] by auto
next
  assume "rx_exec functionCallRegex input = None"
  then show "parseFunctionCalls h input = []"
    unfolding parseFunctionCalls_def by (subst parse_loop.simps) simp
qed

lemma no_call_no_match: "rx_exec functionCallRegex ''no call here'' = None"
  by code_simp

lemma two_call_matches:
  "all_matches 0 two_call_text
   = [(0, bad_call_text), (43, sample_call_text)]"
  by code_simp

theorem parseFunctionCalls_in_order_witness:
  "parseFunctionCalls sample_host ''no call here'' = []
   \<and> parseFunctionCalls sample_host two_call_text
     = [\<lparr>call_name = VStr ''calculator'', arguments = VObj [(''expression'', VStr ''2 + 2'')]\<rparr>]"
proof -
  from parseFunctionCalls_in_order [of sample_host "''no call here''"] no_call_no_match
  have 1: "parseFunctionCalls sample_host ''no call here'' = []" by blast
  have p1: "parse_match sample_host bad_call_text = None"
    by code_simp
  have p2: "parse_match sample_host sample_call_text
    = Some \<lparr>call_name = VStr ''calculator'', arguments = VObj [(''expression'', VStr ''2 + 2'')]\<rparr>"
    by code_simp
  from parseFunctionCalls_in_order [of sample_host two_call_text]
  have "parseFunctionCalls sample_host two_call_text
    = List.map_filter (parse_match sample_host) (map snd (all_matches 0 two_call_text))"
    by blast
  also have "\<dots> = [\<lparr>call_name = VStr ''calculator'', arguments = VObj [(''expression'', VStr ''2 + 2'')]\<rparr>]"
    unfolding two_call_matches by (simp add: List.map_filter_def p1 p2)
  finally show ?thesis using 1 by simp
qed

section \<open>The loop of the orchestrator\<close>

declare conversation_loop.simps [simp del]

lemma resolved_calls_Nil [simp]: "resolved_calls agentTools [] = []"
  by (simp add: resolved_calls_def List.map_filter_def)

lemma resolved_calls_Cons:
  "resolved_calls agentTools (call # calls) =
     (case find (\<lambda>t. VStr (name t) = call_name call) agentTools of
        None \<Rightarrow> resolved_calls agentTools calls
      | Some t \<Rightarrow> (call, t) # resolved_calls agentTools calls)"
  by (simp add: resolved_calls_def List.map_filter_def split: option.splits)

text \<open>What the handling of a call that names a tool does when it runs to its end.\<close>

lemma call_completes_resolved:
  assumes "call_completes h agentTools call"
    and "find (\<lambda>t. VStr (name t) = call_name call) agentTools = Some t"
  shows "ToString h (call_name call) = Inr (name t)
    \<and> executeTool h t (arguments call) = Inr (tool_result h t (arguments call))
    \<and> JSON_stringify h (tool_result h t (arguments call))
      = Inr (stringified h (tool_result h t (arguments call)))
    \<and> resultMessage h call (tool_result h t (arguments call)) = Inr (result_turn h (call, t))"
proof -
  from assms(2) have nm: "call_name call = VStr (name t)"
    by (auto simp: find_Some_iff)
  from assms obtain v s where
    e: "executeTool h t (arguments call) = Inr v" and j: "JSON_stringify h v = Inr s"
    by (auto simp: call_completes_def split: sum.splits)
  from e have tr: "tool_result h t (arguments call) = v" by (simp add: tool_result_def)
  from j have st: "stringified h v = s" by (simp add: stringified_def)
  show ?thesis
    by (simp add: nm e tr j st resultMessage_def result_turn_def)
qed

lemma call_completes_unresolved:
  assumes "call_completes h agentTools call"
  shows "\<exists>printed. ToString h (call_name call) = Inr printed"
  using assms by (auto simp: call_completes_def split: sum.splits)

lemma execute_calls_completes:
  assumes "list_all (call_completes h agentTools) calls"
  shows "execute_calls h agentTools it calls (lg, conversation) =
     Inr (lg @ map (execution_record h it) (resolved_calls agentTools calls),
          conversation @ map (result_turn h) (resolved_calls agentTools calls))"
  using assms
proof (induction calls arbitrary: lg conversation)
  case Nil
  show ?case by simp
next
  case (Cons call calls)
  then have c: "call_completes h agentTools call"
    and cs: "list_all (call_completes h agentTools) calls" by simp_all
  from call_completes_unresolved [OF c] obtain printed where
    p: "ToString h (call_name call) = Inr printed" by blast
  show ?case
  proof (cases "find (\<lambda>t. VStr (name t) = call_name call) agentTools")
    case None
    then show ?thesis by (simp add: p Cons.IH [OF cs] resolved_calls_Cons)
  next
    case (Some t)
    from call_completes_resolved [OF c Some] Some show ?thesis
      by (simp add: p Cons.IH [OF cs] resolved_calls_Cons execution_record_def)
  qed
qed

lemma execute_calls_throws:
  assumes "\<not> list_all (call_completes h agentTools) calls"
  shows "\<exists>e lg' conversation'.
     execute_calls h agentTools it calls (lg, conversation) = Inl (e, lg', conversation')"
  using assms
proof (induction calls arbitrary: lg conversation)
  case Nil
  then show ?case by simp
next
  case (Cons call calls)
  show ?case
  proof (cases "call_completes h agentTools call")
    case False
    show ?thesis
    proof (cases "ToString h (call_name call)")
      case (Inl e)
      then show ?thesis by simp
    next
      case p: (Inr printed)
      show ?thesis
      proof (cases "find (\<lambda>t. VStr (name t) = call_name call) agentTools")
        case None
        with False p show ?thesis by (simp add: call_completes_def)
      next
        case (Some t)
        show ?thesis
        proof (cases "executeTool h t (arguments call)")
          case (Inl e)
          with p Some show ?thesis by simp
        next
          case v: (Inr v)
          show ?thesis
          proof (cases "JSON_stringify h v")
            case (Inl e)
            with p Some v show ?thesis by (simp add: resultMessage_def)
          next
            case (Inr s)
            with False p Some v show ?thesis by (simp add: call_completes_def)
          qed
        qed
      qed
    qed
  next
    case True
    with Cons.prems have cs: "\<not> list_all (call_completes h agentTools) calls" by simp
    from call_completes_unresolved [OF True] obtain printed where
      p: "ToString h (call_name call) = Inr printed" by blast
    show ?thesis
    proof (cases "find (\<lambda>t. VStr (name t) = call_name call) agentTools")
      case None
      with Cons.IH [OF cs] show ?thesis by (simp add: p)
    next
      case (Some t)
      from call_completes_resolved [OF True Some] Some Cons.IH [OF cs] show ?thesis
        by (simp add: p)
    qed
  qed
qed




lemma loop_body_calls:
  assumes "callGeminiAPI backend mdl conversation geminiParams agentTools apiKey = Inr (Some reply)"
    and "reply \<noteq> []" and "parseFunctionCalls h reply \<noteq> []"
    and "list_all (call_completes h agentTools) (parseFunctionCalls h reply)"
  shows "loop_body h backend mdl geminiParams agentTools apiKey it conversation lg =
     Continue
       (conversation @ \<lparr>role = Model, parts_text = reply\<rparr>
          # map (result_turn h) (resolved_calls agentTools (parseFunctionCalls h reply)))
       (lg @ map (execution_record h (Suc it)) (resolved_calls agentTools (parseFunctionCalls h reply)))"
  using assms(1,2,3) by (simp add: loop_body_def execute_calls_completes [OF assms(4)])

lemma failed_run_result: "failed_run e n l c = Inr r \<Longrightarrow> \<not> success r \<and> result r = None \<and> iterations r = n"
  by (auto simp: failed_run_def split: sum.splits)

lemma loop_body_calls_throw:
  assumes "callGeminiAPI backend mdl conversation geminiParams agentTools apiKey = Inr (Some reply)"
    and "reply \<noteq> []" and "parseFunctionCalls h reply \<noteq> []"
    and "\<not> list_all (call_completes h agentTools) (parseFunctionCalls h reply)"
  shows "\<exists>e lg' conversation'.
     loop_body h backend mdl geminiParams agentTools apiKey it conversation lg =
       Return (failed_run e (Suc it) lg' conversation')"
proof -
  from execute_calls_throws [OF assms(4)] obtain e lg' conversation' where
    "execute_calls h agentTools (Suc it) (parseFunctionCalls h reply)
       (lg, conversation @ [\<lparr>role = Model, parts_text = reply\<rparr>]) = Inl (e, lg', conversation')"
    by blast
  with assms(1,2,3) show ?thesis by (auto simp: loop_body_def)
qed

lemma loop_body_done:
  assumes "callGeminiAPI backend mdl conversation geminiParams agentTools apiKey = Inr (Some reply)"
    and "reply \<noteq> []" and "parseFunctionCalls h reply = []"
  shows "loop_body h backend mdl geminiParams agentTools apiKey it conversation lg =
     Return (Inr \<lparr>success = True, error = None, result = Some reply, iterations = Suc it,
                  toolExecutions = lg,
                  conversationHistory = conversation @ [\<lparr>role = Model, parts_text = reply\<rparr>]\<rparr>)"
  using assms by (simp add: loop_body_def)

lemma loop_body_invalid:
  assumes "callGeminiAPI backend mdl conversation geminiParams agentTools apiKey = Inr None
     \<or> callGeminiAPI backend mdl conversation geminiParams agentTools apiKey = Inr (Some [])"
  shows "loop_body h backend mdl geminiParams agentTools apiKey it conversation lg =
     Return (Inr \<lparr>success = False, error = Some (VStr ''Invalid response from LLM''),
                  result = None, iterations = Suc it, toolExecutions = lg,
                  conversationHistory = conversation\<rparr>)"
  using assms by (auto simp: loop_body_def failed_run_def)

lemma loop_body_threw:
  assumes "callGeminiAPI backend mdl conversation geminiParams agentTools apiKey = Inl m"
  shows "loop_body h backend mdl geminiParams agentTools apiKey it conversation lg =
     Return (Inr \<lparr>success = False, error = Some (VStr m),
                  result = None, iterations = Suc it, toolExecutions = lg,
                  conversationHistory = conversation\<rparr>)"
  using assms by (auto simp: loop_body_def failed_run_def)

text \<open>The ways a pass can end.\<close>

lemma loop_body_cases:
  obtains
    (threw) m where "callGeminiAPI backend mdl conversation geminiParams agentTools apiKey = Inl m"
  | (invalid) "callGeminiAPI backend mdl conversation geminiParams agentTools apiKey = Inr None
       \<or> callGeminiAPI backend mdl conversation geminiParams agentTools apiKey = Inr (Some [])"
  | (finished) reply where
      "callGeminiAPI backend mdl conversation geminiParams agentTools apiKey = Inr (Some reply)"
      "reply \<noteq> []" "parseFunctionCalls h reply = []"
  | (calls) reply where
      "callGeminiAPI backend mdl conversation geminiParams agentTools apiKey = Inr (Some reply)"
      "reply \<noteq> []" "parseFunctionCalls h reply \<noteq> []"
      "list_all (call_completes h agentTools) (parseFunctionCalls h reply)"
  | (call_throws) reply where
      "callGeminiAPI backend mdl conversation geminiParams agentTools apiKey = Inr (Some reply)"
      "reply \<noteq> []" "parseFunctionCalls h reply \<noteq> []"
      "\<not> list_all (call_completes h agentTools) (parseFunctionCalls h reply)"
proof (cases "callGeminiAPI backend mdl conversation geminiParams agentTools apiKey")
  case (Inl m)
  then show ?thesis by (rule threw)
next
  case (Inr x)
  show ?thesis
  proof (cases x)
    case None
    with Inr show ?thesis by (intro invalid) simp
  next
    case (Some reply)
    show ?thesis
    proof (cases "reply = []")
      case True
      with Inr Some show ?thesis by (intro invalid) simp
    next
      case False
      show ?thesis
      proof (cases "parseFunctionCalls h reply = []")
        case True
        with Inr Some False show ?thesis by (intro finished) simp_all
      next
        case ne: False
        show ?thesis
        proof (cases "list_all (call_completes h agentTools) (parseFunctionCalls h reply)")
          case True
          with Inr Some False ne show ?thesis by (intro calls) simp_all
        next
          case nc: False
          with Inr Some False ne show ?thesis by (intro call_throws) simp_all
        qed
      qed
    qed
  qed
qed

lemma callGeminiAPI_reply_with [simp]:
  "callGeminiAPI (reply_with reply) mdl conversation geminiParams agentTools apiKey = Inr (Some reply)"
  by (simp add: callGeminiAPI_def reply_with_def)

lemma conversation_loop_step:
  assumes "it < MAX_ITERATIONS"
  shows "conversation_loop h backend mdl geminiParams agentTools apiKey it conversation lg =
     (case loop_body h backend mdl geminiParams agentTools apiKey it conversation lg of
        Return r \<Rightarrow> r
      | Continue conversation' lg' \<Rightarrow>
          conversation_loop h backend mdl geminiParams agentTools apiKey (Suc it) conversation' lg')"
  using assms by (subst conversation_loop.simps) simp

lemma conversation_loop_exhausted:
  assumes "\<not> it < MAX_ITERATIONS"
  shows "conversation_loop h backend mdl geminiParams agentTools apiKey it conversation lg =
     Inr \<lparr>success = False,
          error = Some (VStr ''Max iterations reached. Task may be incomplete.''),
          result = last_text conversation, iterations = it,
          toolExecutions = lg, conversationHistory = conversation\<rparr>"
  using assms by (subst conversation_loop.simps) simp

lemma calculator_name [simp]: "name calculator_tool = ''calculator''"
  by (simp add: calculator_tool_def)

lemma sample_calls:
  "parseFunctionCalls sample_host sample_call_text
   = [\<lparr>call_name = VStr ''calculator'', arguments = VObj [(''expression'', VStr ''2 + 2'')]\<rparr>]"
  by code_simp

lemma big_calls:
  "parseFunctionCalls sample_host big_call_text = [\<lparr>call_name = VStr ''big'', arguments = VObj []\<rparr>]"
  by code_simp

lemma sample_executeTool:
  "executeTool sample_host calculator_tool (VObj [(''expression'', VStr ''2 + 2'')])
   = Inr (Json four_result)"
  by (simp add: executeTool_def executeTool_try_def has_custom_code_def
      calculator_tool_def builtin_switch_def executeCalculator_def calculator_try_def
      sanitize_plain sample_host_def four_result_def json_result_def)

lemma sample_tool_result:
  "tool_result sample_host calculator_tool (VObj [(''expression'', VStr ''2 + 2'')]) = Json four_result"
  by (simp add: tool_result_def sample_executeTool)

lemma sample_stringified:
  "JSON_stringify sample_host (Json four_result)
   = Inr (''{'' @ nl @ ''  '' @ dq @ ''success'' @ dq @ '': true,'' @ nl
          @ ''  '' @ dq @ ''expression'' @ dq @ '': '' @ dq @ ''2 + 2'' @ dq @ '','' @ nl
          @ ''  '' @ dq @ ''result'' @ dq @ '': 4'' @ nl @ ''}'')"
  by (simp add: sample_host_def)

lemma sample_completes:
  "call_completes sample_host [calculator_tool]
     \<lparr>call_name = VStr ''calculator'', arguments = VObj [(''expression'', VStr ''2 + 2'')]\<rparr>"
  by (simp add: call_completes_def sample_executeTool sample_stringified)


lemma sample_resolved:
  "resolved_calls [calculator_tool] (parseFunctionCalls sample_host sample_call_text)
   = [(\<lparr>call_name = VStr ''calculator'', arguments = VObj [(''expression'', VStr ''2 + 2'')]\<rparr>,
       calculator_tool)]"
  by (simp add: sample_calls resolved_calls_Cons calculator_tool_def)


lemma sample_result_turn:
  "result_turn sample_host
     (\<lparr>call_name = VStr ''calculator'', arguments = VObj [(''expression'', VStr ''2 + 2'')]\<rparr>,
      calculator_tool) = sample_tool_turn"
  by (simp add: result_turn_def sample_tool_result stringified_def sample_stringified
      sample_tool_turn_def dq_def)

lemma big_name [simp]: "name big_tool = ''big''"
  by (simp add: big_tool_def)

lemma big_has_custom_code: "has_custom_code big_tool"
  unfolding has_custom_code_def big_tool_def bigint_code_def by code_simp

lemma big_executeTool: "executeTool sample_host big_tool args = Inr (Opaque 0)"
  by (simp add: executeTool_def executeTool_try_def big_has_custom_code executeCustomCode_def)
    (simp add: big_tool_def sample_host_def)

lemma big_resolved:
  "resolved_calls [big_tool] (parseFunctionCalls sample_host big_call_text)
   = [(\<lparr>call_name = VStr ''big'', arguments = VObj []\<rparr>, big_tool)]"
  by (simp add: big_calls resolved_calls_Cons big_tool_def)

lemma big_loop_body:
  "loop_body sample_host (reply_with big_call_text) mdl geminiParams [big_tool] apiKey it
     conversation lg
   = Return (Inr \<lparr>success = False,
                  error = Some (VStr ''Do not know how to serialize a BigInt''),
                  result = None, iterations = Suc it,
                  toolExecutions = lg @ [\<lparr>iteration = Suc it, tool = VStr ''big'',
                                            exec_arguments = VObj [], exec_result = Opaque 0\<rparr>],
                  conversationHistory =
                    conversation @ [\<lparr>role = Model, parts_text = big_call_text\<rparr>]\<rparr>)"
proof -
  have ne: "big_call_text \<noteq> []" by (simp add: big_call_text_def)
  have s: "JSON_stringify sample_host (Opaque 0)
      = Inl (JsError ''Do not know how to serialize a BigInt'')"
    by (simp add: sample_host_def)
  show ?thesis
    by (simp add: loop_body_def ne big_calls big_executeTool resultMessage_def s failed_run_def)
qed




section \<open>Termination of a run: done, failed, exhausted\<close>

lemma parse_empty_text [simp]: "parseFunctionCalls h [] = []"
proof -
  have "rx_exec functionCallRegex [] = None" by code_simp
  then show ?thesis
    unfolding parseFunctionCalls_def by (subst parse_loop.simps) simp
qed

text \<open>A run whose three steps before the loop return is the loop on the first turn.\<close>

lemma executeAgentWithTools_loop:
  assumes "buildSystemPrompt h agent customParams apiKey userInput = Inr systemPrompt"
    and "extractGeminiParameters h customParams = Inr geminiParams"
    and "loadAgentTools getToolById agent = Inr agentTools"
  shows "executeAgentWithTools h getToolById backend agent userInput customParams apiKey =
     conversation_loop h backend (model agent) geminiParams agentTools apiKey 0
       [initial_turn systemPrompt userInput] []"
  using assms by (simp add: executeAgentWithTools_def)

lemma sample_buildSystemPrompt:
  "buildSystemPrompt sample_host sample_agent [] apiKey userInput = Inr sample_prompt"
  by (simp add: buildSystemPrompt_def contextParams_def sample_agent_def sample_prompt_def)

lemma big_buildSystemPrompt:
  "buildSystemPrompt sample_host big_agent [] apiKey userInput = Inr sample_prompt"
  by (simp add: buildSystemPrompt_def contextParams_def big_agent_def sample_agent_def
      sample_prompt_def)

lemma extract_no_params: "extractGeminiParameters h [] = Inr empty_params"
  by (simp add: extractGeminiParameters_def)

lemma sample_tools: "loadAgentTools sample_store sample_agent = Inr [calculator_tool]"
  by (simp add: loadAgentTools_def sample_agent_def sample_store_def map_filter_simps)

lemma big_tools: "loadAgentTools sample_store big_agent = Inr [big_tool]"
  by (simp add: loadAgentTools_def big_agent_def sample_store_def map_filter_simps)

lemma sample_model: "model sample_agent = ''gemini-2.5-flash''" "model big_agent = ''gemini-2.5-flash''"
  by (simp_all add: sample_agent_def big_agent_def)

lemma sample_run:
  "executeAgentWithTools sample_host sample_store backend sample_agent userInput [] apiKey =
     conversation_loop sample_host backend ''gemini-2.5-flash'' empty_params [calculator_tool]
       apiKey 0 [initial_turn sample_prompt userInput] []"
  using executeAgentWithTools_loop [OF sample_buildSystemPrompt extract_no_params sample_tools]
  by (simp add: sample_model)

lemma big_run:
  "executeAgentWithTools sample_host sample_store backend big_agent userInput [] apiKey =
     conversation_loop sample_host backend ''gemini-2.5-flash'' empty_params [big_tool]
       apiKey 0 [initial_turn sample_prompt userInput] []"
  using executeAgentWithTools_loop [OF big_buildSystemPrompt extract_no_params big_tools]
  by (simp add: sample_model)

text \<open>
  C1. For every reply of the model with a text (the loop rejects a reply without text
  before it parses anything) from which the parser extracts no call, the run ends in that
  pass with \<open>success = true\<close>, the reply's text as result, the number of the pass as
  \<open>iterations\<close>, the log as it stands and the transcript extended by the reply.
\<close>

theorem no_calls_done:
  assumes "it < MAX_ITERATIONS"
    and "callGeminiAPI backend mdl conversation geminiParams agentTools apiKey = Inr (Some reply)"
    and "reply \<noteq> []" and "parseFunctionCalls h reply = []"
  shows "conversation_loop h backend mdl geminiParams agentTools apiKey it conversation lg
    = Inr \<lparr>success = True, error = None, result = Some reply, iterations = Suc it,
           toolExecutions = lg,
           conversationHistory = conversation @ [\<lparr>role = Model, parts_text = reply\<rparr>]\<rparr>"
  by (simp add: conversation_loop_step [OF assms(1)] loop_body_done [OF assms(2,3,4)])

lemma answer_no_calls: "parseFunctionCalls sample_host ''The answer is 4.'' = []"
  by code_simp

theorem no_calls_done_witness:
  "executeAgentWithTools sample_host sample_store (reply_with ''The answer is 4.'') sample_agent
      ''What is 2 + 2?'' [] ''key''
    = Inr \<lparr>success = True, error = None, result = Some ''The answer is 4.'', iterations = 1,
           toolExecutions = [],
           conversationHistory = [initial_turn sample_prompt ''What is 2 + 2?'',
                                  \<lparr>role = Model, parts_text = ''The answer is 4.''\<rparr>]\<rparr>"
proof -
  have lt: "0 < MAX_ITERATIONS" by (simp add: MAX_ITERATIONS_def)
  have ne: "''The answer is 4.'' \<noteq> []" by simp
  from no_calls_done [OF lt callGeminiAPI_reply_with ne answer_no_calls,
      where lg = "[]" and conversation = "[initial_turn sample_prompt ''What is 2 + 2?'']"
        and mdl = "''gemini-2.5-flash''" and geminiParams = empty_params
        and agentTools = "[calculator_tool]" and apiKey = "''key''"]
  show ?thesis by (simp add: sample_run)
qed

text \<open>A result that a pass returns carries the number of the pass.\<close>

lemma loop_body_return:
  assumes "loop_body h backend mdl geminiParams agentTools apiKey it conversation lg = Return (Inr r)"
  shows "iterations r = Suc it \<and> (success r \<or> result r = None)"
proof (cases rule: loop_body_cases [where backend = backend and mdl = mdl
      and conversation = conversation and geminiParams = geminiParams
      and agentTools = agentTools and apiKey = apiKey and h = h])
  case (threw m)
  from loop_body_threw [OF this] assms show ?thesis by auto
next
  case invalid
  from loop_body_invalid [OF this] assms show ?thesis by auto
next
  case (finished reply)
  from loop_body_done [OF this] assms show ?thesis by auto
next
  case (calls reply)
  from loop_body_calls [OF this] assms show ?thesis by auto
next
  case (call_throws reply)
  from loop_body_calls_throw [OF this, where it = it and lg = lg] obtain e lg' conversation'
    where "loop_body h backend mdl geminiParams agentTools apiKey it conversation lg =
       Return (failed_run e (Suc it) lg' conversation')" by blast
  with assms have "failed_run e (Suc it) lg' conversation' = Inr r" by simp
  from failed_run_result [OF this] show ?thesis by simp
qed

lemma loop_returns:
  "it \<le> MAX_ITERATIONS \<Longrightarrow>
   conversation_loop h backend mdl geminiParams agentTools apiKey it conversation lg = Inr r \<Longrightarrow>
     iterations r \<le> MAX_ITERATIONS \<and> it \<le> iterations r
     \<and> (it < MAX_ITERATIONS \<longrightarrow> Suc it \<le> iterations r)"
proof (induction h backend mdl geminiParams agentTools apiKey it conversation lg
    rule: conversation_loop.induct)
  case (1 h backend mdl geminiParams agentTools apiKey it conversation lg)
  show ?case
  proof (cases "it < MAX_ITERATIONS")
    case False
    with "1.prems" show ?thesis by (auto simp: conversation_loop_exhausted)
  next
    case True
    show ?thesis
    proof (cases "loop_body h backend mdl geminiParams agentTools apiKey it conversation lg")
      case (Return x)
      with True "1.prems"(2) have "x = Inr r" by (simp add: conversation_loop_step)
      with Return loop_body_return have "iterations r = Suc it" by blast
      with True show ?thesis by simp
    next
      case (Continue conversation' lg')
      from True have le: "Suc it \<le> MAX_ITERATIONS" by simp
      from True Continue "1.prems"(2) have
        "conversation_loop h backend mdl geminiParams agentTools apiKey (Suc it) conversation' lg' = Inr r"
        by (simp add: conversation_loop_step)
      from "1.IH" [OF True Continue le this] show ?thesis by simp
    qed
  qed
qed

lemma loop_exhausts:
  assumes always: "\<forall>conversation. \<exists>reply.
      callGeminiAPI backend mdl conversation geminiParams agentTools apiKey = Inr (Some reply)
      \<and> parseFunctionCalls h reply \<noteq> []
      \<and> list_all (call_completes h agentTools) (parseFunctionCalls h reply)"
  shows "it \<le> MAX_ITERATIONS \<Longrightarrow>
     \<exists>r. conversation_loop h backend mdl geminiParams agentTools apiKey it conversation lg = Inr r
         \<and> \<not> success r
         \<and> error r = Some (VStr ''Max iterations reached. Task may be incomplete.'')
         \<and> iterations r = MAX_ITERATIONS"
proof (induction "MAX_ITERATIONS - it" arbitrary: it conversation lg)
  case 0
  then have "\<not> it < MAX_ITERATIONS" "it = MAX_ITERATIONS" by simp_all
  then show ?case by (simp add: conversation_loop_exhausted)
next
  case (Suc n)
  then have lt: "it < MAX_ITERATIONS" by simp
  from always obtain reply where
    r: "callGeminiAPI backend mdl conversation geminiParams agentTools apiKey = Inr (Some reply)"
    and c: "parseFunctionCalls h reply \<noteq> []"
    and a: "list_all (call_completes h agentTools) (parseFunctionCalls h reply)" by blast
  from c have ne: "reply \<noteq> []" by auto
  from Suc(2) lt have "n = MAX_ITERATIONS - Suc it" "Suc it \<le> MAX_ITERATIONS" by simp_all
  from Suc(1) [OF this] show ?case
    by (simp add: conversation_loop_step [OF lt] loop_body_calls [OF r ne c a])
qed

text \<open>
  With built-in tools only, and a \<open>JSON.stringify\<close> that serialises every tree, whatever
  is thrown inside a pass carries a message, so the pass returns a result or falls through.
\<close>

lemma execute_calls_builtin_throws:
  assumes "\<forall>t \<in> set agentTools. \<not> has_custom_code t"
    and "\<forall>v. \<exists>s. JSON_stringify h (Json v) = Inr s"
  shows "execute_calls h agentTools it calls (lg, conversation) = Inl (e, lg', conversation')
     \<Longrightarrow> \<exists>m. e = JsError m"
proof (induction calls arbitrary: lg conversation)
  case Nil
  then show ?case by simp
next
  case (Cons call calls)
  show ?case
  proof (cases "ToString h (call_name call)")
    case (Inl x)
    with Cons.prems have "e = x" by simp
    with Inl ToString_throws_error show ?thesis by blast
  next
    case p: (Inr printed)
    show ?thesis
    proof (cases "find (\<lambda>t. VStr (name t) = call_name call) agentTools")
      case None
      with p Cons.prems Cons.IH show ?thesis by simp
    next
      case (Some t)
      then have "t \<in> set agentTools" by (auto simp: find_Some_iff)
      with assms(1) have nc: "\<not> has_custom_code t" by blast
      from executeTool_builtin [OF nc] obtain v where
        v: "executeTool h t (arguments call) = Inr (Json v)"
        by (cases "builtin_switch h t (arguments call)") auto
      from assms(2) obtain s where s: "JSON_stringify h (Json v) = Inr s" by blast
      from p s obtain message where
        m: "resultMessage h call (Json v) = Inr message"
        by (simp add: resultMessage_def)
      from Cons.prems p Some v m Cons.IH show ?thesis by simp
    qed
  qed
qed

lemma loop_body_builtin_return:
  assumes "\<forall>t \<in> set agentTools. \<not> has_custom_code t"
    and "\<forall>v. \<exists>s. JSON_stringify h (Json v) = Inr s"
    and "loop_body h backend mdl geminiParams agentTools apiKey it conversation lg = Return x"
  shows "\<exists>r. x = Inr r"
proof (cases rule: loop_body_cases [where backend = backend and mdl = mdl
      and conversation = conversation and geminiParams = geminiParams
      and agentTools = agentTools and apiKey = apiKey and h = h])
  case (threw m)
  from loop_body_threw [OF this] assms(3) show ?thesis by auto
next
  case invalid
  from loop_body_invalid [OF this] assms(3) show ?thesis by auto
next
  case (finished reply)
  from loop_body_done [OF this] assms(3) show ?thesis by auto
next
  case (calls reply)
  from loop_body_calls [OF this] assms(3) show ?thesis by auto
next
  case (call_throws reply)
  from execute_calls_throws [OF call_throws(4)] obtain e lg' conversation' where
    x: "execute_calls h agentTools (Suc it) (parseFunctionCalls h reply)
       (lg, conversation @ [\<lparr>role = Model, parts_text = reply\<rparr>]) = Inl (e, lg', conversation')"
    by blast
  from execute_calls_builtin_throws [OF assms(1,2) x] obtain m where "e = JsError m" by blast
  with x call_throws(1,2,3) assms(3) show ?thesis
    by (auto simp: loop_body_def failed_run_def)
qed

lemma loop_builtin_returns:
  assumes "\<forall>t \<in> set agentTools. \<not> has_custom_code t"
    and "\<forall>v. \<exists>s. JSON_stringify h (Json v) = Inr s"
  shows "\<exists>r. conversation_loop h backend mdl geminiParams agentTools apiKey it conversation lg = Inr r"
proof (induction "MAX_ITERATIONS - it" arbitrary: it conversation lg)
  case 0
  then have "\<not> it < MAX_ITERATIONS" by simp
  then show ?case by (simp add: conversation_loop_exhausted)
next
  case (Suc n)
  then have lt: "it < MAX_ITERATIONS" by simp
  from Suc(2) have n: "n = MAX_ITERATIONS - Suc it" by simp
  show ?case
  proof (cases "loop_body h backend mdl geminiParams agentTools apiKey it conversation lg")
    case (Return x)
    from loop_body_builtin_return [OF assms Return] Return show ?thesis
      by (auto simp: conversation_loop_step [OF lt])
  next
    case (Continue c1 l1)
    with Suc(1) [OF n, of c1 l1] show ?thesis
      by (simp add: conversation_loop_step [OF lt])
  qed
qed

text \<open>
  C2, as stated, fails: every reply of this run contains a call that resolves to a tool of
  the agent, yet the run ends in its first pass as failed, not after ten passes as
  exhausted, because the result of the tool (a BigInt) cannot be serialised for the
  transcript.
\<close>

theorem resolvable_calls_fail_early:
  "(\<forall>request. \<exists>reply. reply_with big_call_text request
        = OkData \<lparr>candidates = Some [Some [Some reply]], blockReason = None\<rparr>
      \<and> resolved_calls [big_tool] (parseFunctionCalls sample_host reply) \<noteq> [])
   \<and> loadAgentTools sample_store big_agent = Inr [big_tool]
   \<and> executeAgentWithTools sample_host sample_store (reply_with big_call_text) big_agent
       ''How big?'' [] ''key''
     = Inr \<lparr>success = False,
            error = Some (VStr ''Do not know how to serialize a BigInt''),
            result = None, iterations = 1,
            toolExecutions = [\<lparr>iteration = 1, tool = VStr ''big'',
                               exec_arguments = VObj [], exec_result = Opaque 0\<rparr>],
            conversationHistory = [initial_turn sample_prompt ''How big?'',
                                   \<lparr>role = Model, parts_text = big_call_text\<rparr>]\<rparr>"
proof -
  have lt: "0 < MAX_ITERATIONS" by (simp add: MAX_ITERATIONS_def)
  show ?thesis
    by (simp add: big_run conversation_loop_step [OF lt] big_loop_body big_tools big_resolved
        reply_with_def)
qed

text \<open>
  C2, amended. The ceiling \<open>MAX_ITERATIONS\<close> is 10. Every run that returns a result
  reports \<open>iterations\<close> between 1 and 10: the body of the loop is entered at most 10
  times. A run returns a result whenever the steps before the loop return, the tools of the
  agent are built-in ones and \<open>JSON.stringify\<close> serialises every tree. When the steps
  before the loop return, every reply of the model contains at least one parsed function
  call (resolvable or not) and the handling of every call runs to its end (its name
  converts to a string, the invoker returns, the result serialises), the run ends in the
  exhausted outcome with \<open>iterations\<close> exactly 10.
\<close>

theorem iterations_bounded:
  "MAX_ITERATIONS = 10
   \<and> (\<forall>r. executeAgentWithTools h getToolById backend agent userInput customParams apiKey = Inr r
          \<longrightarrow> 1 \<le> iterations r \<and> iterations r \<le> 10)
   \<and> (buildSystemPrompt h agent customParams apiKey userInput = Inr systemPrompt
      \<and> extractGeminiParameters h customParams = Inr geminiParams
      \<and> loadAgentTools getToolById agent = Inr agentTools
      \<and> (\<forall>t \<in> set agentTools. \<not> has_custom_code t)
      \<and> (\<forall>v. \<exists>s. JSON_stringify h (Json v) = Inr s) \<longrightarrow>
       (\<exists>r. executeAgentWithTools h getToolById backend agent userInput customParams apiKey = Inr r
          \<and> 1 \<le> iterations r \<and> iterations r \<le> 10))
   \<and> (buildSystemPrompt h agent customParams apiKey userInput = Inr systemPrompt
      \<and> extractGeminiParameters h customParams = Inr geminiParams
      \<and> loadAgentTools getToolById agent = Inr agentTools
      \<and> (\<forall>conversation. \<exists>reply.
            callGeminiAPI backend (model agent) conversation geminiParams agentTools apiKey
              = Inr (Some reply)
            \<and> parseFunctionCalls h reply \<noteq> []
            \<and> list_all (call_completes h agentTools) (parseFunctionCalls h reply)) \<longrightarrow>
       (\<exists>r. executeAgentWithTools h getToolById backend agent userInput customParams apiKey = Inr r
          \<and> \<not> success r
          \<and> error r = Some (VStr ''Max iterations reached. Task may be incomplete.'')
          \<and> iterations r = 10))"
proof (intro conjI impI allI)
  show m: "MAX_ITERATIONS = 10" by (simp add: MAX_ITERATIONS_def)
  fix r
  assume run: "executeAgentWithTools h getToolById backend agent userInput customParams apiKey = Inr r"
  then obtain sp gp ts where
    "conversation_loop h backend (model agent) gp ts apiKey 0 [initial_turn sp userInput] [] = Inr r"
    by (auto simp: executeAgentWithTools_def split: sum.splits)
  from loop_returns [OF _ this] m have "iterations r \<le> 10 \<and> Suc 0 \<le> iterations r"
    by simp
  then show "1 \<le> iterations r" and "iterations r \<le> 10" by simp_all
next
  assume b: "buildSystemPrompt h agent customParams apiKey userInput = Inr systemPrompt
      \<and> extractGeminiParameters h customParams = Inr geminiParams
      \<and> loadAgentTools getToolById agent = Inr agentTools
      \<and> (\<forall>t \<in> set agentTools. \<not> has_custom_code t)
      \<and> (\<forall>v. \<exists>s. JSON_stringify h (Json v) = Inr s)"
  then have run: "executeAgentWithTools h getToolById backend agent userInput customParams apiKey =
     conversation_loop h backend (model agent) geminiParams agentTools apiKey 0
       [initial_turn systemPrompt userInput] []"
    by (intro executeAgentWithTools_loop) simp_all
  from b have "\<forall>t \<in> set agentTools. \<not> has_custom_code t"
    and "\<forall>v. \<exists>s. JSON_stringify h (Json v) = Inr s" by simp_all
  from loop_builtin_returns [OF this] obtain r where
    r: "conversation_loop h backend (model agent) geminiParams agentTools apiKey 0
       [initial_turn systemPrompt userInput] [] = Inr r" by blast
  have "0 \<le> MAX_ITERATIONS" by simp
  from loop_returns [OF this r] have "iterations r \<le> 10 \<and> Suc 0 \<le> iterations r"
    by (simp add: MAX_ITERATIONS_def)
  with r run
  show "\<exists>r. executeAgentWithTools h getToolById backend agent userInput customParams apiKey = Inr r
          \<and> 1 \<le> iterations r \<and> iterations r \<le> 10"
    by simp
next
  assume a: "buildSystemPrompt h agent customParams apiKey userInput = Inr systemPrompt
      \<and> extractGeminiParameters h customParams = Inr geminiParams
      \<and> loadAgentTools getToolById agent = Inr agentTools
      \<and> (\<forall>conversation. \<exists>reply.
            callGeminiAPI backend (model agent) conversation geminiParams agentTools apiKey
              = Inr (Some reply)
            \<and> parseFunctionCalls h reply \<noteq> []
            \<and> list_all (call_completes h agentTools) (parseFunctionCalls h reply))"
  then have always: "\<forall>conversation. \<exists>reply.
            callGeminiAPI backend (model agent) conversation geminiParams agentTools apiKey
              = Inr (Some reply)
            \<and> parseFunctionCalls h reply \<noteq> []
            \<and> list_all (call_completes h agentTools) (parseFunctionCalls h reply)"
    by blast
  from a have run: "executeAgentWithTools h getToolById backend agent userInput customParams apiKey =
     conversation_loop h backend (model agent) geminiParams agentTools apiKey 0
       [initial_turn systemPrompt userInput] []"
    by (intro executeAgentWithTools_loop) simp_all
  from loop_exhausts [OF always, of 0]
  show "\<exists>r. executeAgentWithTools h getToolById backend agent userInput customParams apiKey = Inr r
          \<and> \<not> success r
          \<and> error r = Some (VStr ''Max iterations reached. Task may be incomplete.'')
          \<and> iterations r = 10"
    unfolding run by (simp add: MAX_ITERATIONS_def)
qed

theorem iterations_bounded_witness:
  "(\<exists>r. executeAgentWithTools sample_host sample_store (reply_with sample_call_text) sample_agent
          ''What is 2 + 2?'' [] ''key'' = Inr r
      \<and> \<not> success r
      \<and> error r = Some (VStr ''Max iterations reached. Task may be incomplete.'')
      \<and> iterations r = 10)
   \<and> (\<exists>r. executeAgentWithTools sample_host sample_store (reply_with ''The answer is 4.'')
            sample_agent ''What is 2 + 2?'' [] ''key'' = Inr r
          \<and> 1 \<le> iterations r \<and> iterations r \<le> 10)"
proof -
  have "buildSystemPrompt sample_host sample_agent [] ''key'' ''What is 2 + 2?'' = Inr sample_prompt
      \<and> extractGeminiParameters sample_host [] = Inr empty_params
      \<and> loadAgentTools sample_store sample_agent = Inr [calculator_tool]
      \<and> (\<forall>conversation. \<exists>reply.
          callGeminiAPI (reply_with sample_call_text) (model sample_agent) conversation
            empty_params [calculator_tool] ''key'' = Inr (Some reply)
          \<and> parseFunctionCalls sample_host reply \<noteq> []
          \<and> list_all (call_completes sample_host [calculator_tool])
               (parseFunctionCalls sample_host reply))"
    by (simp add: sample_buildSystemPrompt extract_no_params sample_tools sample_calls
        sample_completes)
  with iterations_bounded [of sample_host sample_store "reply_with sample_call_text" sample_agent
      "''What is 2 + 2?''" "[]" "''key''" sample_prompt empty_params "[calculator_tool]"]
  have 1: "\<exists>r. executeAgentWithTools sample_host sample_store (reply_with sample_call_text) sample_agent
          ''What is 2 + 2?'' [] ''key'' = Inr r
      \<and> \<not> success r
      \<and> error r = Some (VStr ''Max iterations reached. Task may be incomplete.'')
      \<and> iterations r = 10"
    by blast
  have nc: "\<forall>t \<in> set [calculator_tool]. \<not> has_custom_code t"
    by (simp add: has_custom_code_def calculator_tool_def)
  have js: "\<forall>v. \<exists>s. JSON_stringify sample_host (Json v) = Inr s"
    by (simp add: sample_host_def)
  have "buildSystemPrompt sample_host sample_agent [] ''key'' ''What is 2 + 2?'' = Inr sample_prompt
      \<and> extractGeminiParameters sample_host [] = Inr empty_params
      \<and> loadAgentTools sample_store sample_agent = Inr [calculator_tool]
      \<and> (\<forall>t \<in> set [calculator_tool]. \<not> has_custom_code t)
      \<and> (\<forall>v. \<exists>s. JSON_stringify sample_host (Json v) = Inr s)"
    using nc js by (simp add: sample_buildSystemPrompt extract_no_params sample_tools)
  with iterations_bounded [of sample_host sample_store "reply_with ''The answer is 4.''" sample_agent
      "''What is 2 + 2?''" "[]" "''key''" sample_prompt empty_params "[calculator_tool]"]
  have 3: "\<exists>r. executeAgentWithTools sample_host sample_store (reply_with ''The answer is 4.'')
            sample_agent ''What is 2 + 2?'' [] ''key'' = Inr r
          \<and> 1 \<le> iterations r \<and> iterations r \<le> 10"
    by blast
  from 1 3 show ?thesis by blast
qed

section \<open>The exhausted outcome\<close>

lemma exhausted_after_passes:
  "run_passes h backend mdl geminiParams agentTools apiKey n it conversation lg = Some (conversation', lg')
   \<Longrightarrow> it + n = MAX_ITERATIONS
   \<Longrightarrow> conversation_loop h backend mdl geminiParams agentTools apiKey it conversation lg
       = Inr \<lparr>success = False,
              error = Some (VStr ''Max iterations reached. Task may be incomplete.''),
              result = last_text conversation', iterations = MAX_ITERATIONS,
              toolExecutions = lg', conversationHistory = conversation'\<rparr>"
proof (induction n arbitrary: it conversation lg)
  case 0
  then show ?case by (simp add: conversation_loop_exhausted)
next
  case (Suc n)
  from Suc.prems(2) have lt: "it < MAX_ITERATIONS" by simp
  from Suc.prems(1) obtain c1 l1 where
    b: "loop_body h backend mdl geminiParams agentTools apiKey it conversation lg = Continue c1 l1"
    and r: "run_passes h backend mdl geminiParams agentTools apiKey n (Suc it) c1 l1 = Some (conversation', lg')"
    by (auto split: pass.splits)
  from Suc.prems(2) have "Suc it + n = MAX_ITERATIONS" by simp
  from Suc.IH [OF r this] show ?case
    by (simp add: conversation_loop_step [OF lt] b)
qed

lemma loop_body_continue:
  assumes "loop_body h backend mdl geminiParams agentTools apiKey it conversation lg = Continue c1 l1"
  shows "\<exists>reply. reply \<noteq> [] \<and> parseFunctionCalls h reply \<noteq> []
      \<and> c1 = conversation @ \<lparr>role = Model, parts_text = reply\<rparr>
              # map (result_turn h) (resolved_calls agentTools (parseFunctionCalls h reply))"
proof (cases rule: loop_body_cases [where backend = backend and mdl = mdl
      and conversation = conversation and geminiParams = geminiParams
      and agentTools = agentTools and apiKey = apiKey and h = h])
  case (threw m)
  from loop_body_threw [OF this] assms show ?thesis by simp
next
  case invalid
  from loop_body_invalid [OF this] assms show ?thesis by simp
next
  case (finished reply)
  from loop_body_done [OF this] assms show ?thesis by simp
next
  case (calls reply)
  from loop_body_calls [OF this] assms calls(2,3) show ?thesis by auto
next
  case (call_throws reply)
  from loop_body_calls_throw [OF this, where it = it and lg = lg] assms show ?thesis by auto
qed

lemma last_pass_turn:
  "run_passes h backend mdl geminiParams agentTools apiKey (Suc n) it conversation lg = Some (conversation', lg')
   \<Longrightarrow> \<exists>reply previous. reply \<noteq> [] \<and> parseFunctionCalls h reply \<noteq> []
       \<and> conversation'
         = previous @ \<lparr>role = Model, parts_text = reply\<rparr>
             # map (result_turn h) (resolved_calls agentTools (parseFunctionCalls h reply))
       \<and> last conversation'
         = (if resolved_calls agentTools (parseFunctionCalls h reply) = []
            then \<lparr>role = Model, parts_text = reply\<rparr>
            else result_turn h (last (resolved_calls agentTools (parseFunctionCalls h reply))))"
proof (induction n arbitrary: it conversation lg)
  case 0
  then obtain c1 l1 where
    b: "loop_body h backend mdl geminiParams agentTools apiKey it conversation lg = Continue c1 l1"
    and e: "conversation' = c1"
    by (auto split: pass.splits)
  from loop_body_continue [OF b] obtain reply where
    r: "reply \<noteq> []" "parseFunctionCalls h reply \<noteq> []"
    "c1 = conversation @ \<lparr>role = Model, parts_text = reply\<rparr>
              # map (result_turn h) (resolved_calls agentTools (parseFunctionCalls h reply))"
    by blast
  have "last c1 = (if resolved_calls agentTools (parseFunctionCalls h reply) = []
            then \<lparr>role = Model, parts_text = reply\<rparr>
            else result_turn h (last (resolved_calls agentTools (parseFunctionCalls h reply))))"
    unfolding r(3) by (simp add: last_map)
  with r e show ?case by blast
next
  case (Suc n)
  from Suc.prems obtain c1 l1 where
    "run_passes h backend mdl geminiParams agentTools apiKey (Suc n) (Suc it) c1 l1 = Some (conversation', lg')"
    by (subst (asm) run_passes.simps) (auto split: pass.splits)
  from Suc.IH [OF this] show ?case .
qed

lemma result_turn_text: "parts_text (result_turn h ct) \<noteq> [] \<and> role (result_turn h ct) = User"
  by (simp add: result_turn_def)

lemma sample_loop_body:
  "loop_body sample_host (reply_with sample_call_text) mdl geminiParams [calculator_tool] apiKey
     it conversation lg
   = Continue (conversation @ [\<lparr>role = Model, parts_text = sample_call_text\<rparr>, sample_tool_turn])
       (lg @ [execution_record sample_host (Suc it)
                (\<lparr>call_name = VStr ''calculator'',
                  arguments = VObj [(''expression'', VStr ''2 + 2'')]\<rparr>, calculator_tool)])"
proof -
  have ne: "sample_call_text \<noteq> []" by (simp add: sample_call_text_def)
  have c: "parseFunctionCalls sample_host sample_call_text \<noteq> []" by (simp add: sample_calls)
  have a: "list_all (call_completes sample_host [calculator_tool])
      (parseFunctionCalls sample_host sample_call_text)"
    by (simp add: sample_calls sample_completes)
  from loop_body_calls [OF callGeminiAPI_reply_with ne c a] show ?thesis
    by (simp add: sample_resolved sample_result_turn)
qed

lemma sample_passes:
  "\<exists>conversation' lg'.
     run_passes sample_host (reply_with sample_call_text) mdl geminiParams [calculator_tool] apiKey
       (Suc n) it conversation lg = Some (conversation', lg')
     \<and> last conversation' = sample_tool_turn"
proof (induction n arbitrary: it conversation lg)
  case 0
  show ?case by (simp add: sample_loop_body)
next
  case (Suc n)
  from Suc [of "Suc it" "conversation @ [\<lparr>role = Model, parts_text = sample_call_text\<rparr>, sample_tool_turn]"
      "lg @ [execution_record sample_host (Suc it)
                (\<lparr>call_name = VStr ''calculator'',
                  arguments = VObj [(''expression'', VStr ''2 + 2'')]\<rparr>, calculator_tool)]"]
  show ?case by (subst run_passes.simps) (simp add: sample_loop_body)
qed

text \<open>
  C6, as stated, fails: when a call of the final pass is executed, the last transcript turn
  is the user-origin turn that reports the tool's result, and that text, not the model's
  last reply, is the \<open>result\<close> of the exhausted run.
\<close>

theorem exhausted_result_is_tool_turn:
  "(case executeAgentWithTools sample_host sample_store (reply_with sample_call_text) sample_agent
          ''What is 2 + 2?'' [] ''key'' of
      Inl e \<Rightarrow> None
    | Inr r \<Rightarrow> result r)
   = Some (''Tool '' @ dq @ ''calculator'' @ dq @ '' execution result:'' @ nl
        @ ''{'' @ nl @ ''  '' @ dq @ ''success'' @ dq @ '': true,'' @ nl
        @ ''  '' @ dq @ ''expression'' @ dq @ '': '' @ dq @ ''2 + 2'' @ dq @ '','' @ nl
        @ ''  '' @ dq @ ''result'' @ dq @ '': 4'' @ nl @ ''}'' @ nl @ nl
        @ ''Please continue with the task using this information.'')"
proof -
  from sample_passes [of "''gemini-2.5-flash''" empty_params "''key''" 9 0
      "[initial_turn sample_prompt ''What is 2 + 2?'']" "[]"]
  obtain conversation' lg' where
    p: "run_passes sample_host (reply_with sample_call_text) ''gemini-2.5-flash''
          empty_params [calculator_tool] ''key'' 10 0
          [initial_turn sample_prompt ''What is 2 + 2?''] []
        = Some (conversation', lg')"
    and l: "last conversation' = sample_tool_turn"
    by (auto simp: eval_nat_numeral)
  have ne: "conversation' \<noteq> []"
    using p by (auto simp: eval_nat_numeral sample_loop_body)
  have "0 + 10 = MAX_ITERATIONS" by (simp add: MAX_ITERATIONS_def)
  from exhausted_after_passes [OF p this]
  have "executeAgentWithTools sample_host sample_store (reply_with sample_call_text) sample_agent
          ''What is 2 + 2?'' [] ''key''
    = Inr \<lparr>success = False,
           error = Some (VStr ''Max iterations reached. Task may be incomplete.''),
           result = last_text conversation', iterations = MAX_ITERATIONS,
           toolExecutions = lg', conversationHistory = conversation'\<rparr>"
    by (simp add: sample_run)
  moreover have "last_text conversation' = Some (parts_text sample_tool_turn)"
    using ne l by (simp add: last_text_def sample_tool_turn_def)
  ultimately show ?thesis by (simp add: sample_tool_turn_def)
qed

text \<open>
  C6, amended. When the body of the loop has run the full ceiling of passes without
  returning, the run ends in the exhausted outcome: \<open>success = false\<close>, the error "Max
  iterations reached. Task may be incomplete.", \<open>iterations = 10\<close>, and as \<open>result\<close> the
  text of the last transcript turn, which is never empty. The transcript ends with the
  model's reply of the final pass followed by the reports of the tools executed in that
  pass, so its last turn is the user-origin report of the last tool executed in the final
  pass, or the model's final reply when no call of the final pass resolved. A failed
  outcome always has \<open>result = null\<close>, so the two outcomes cannot be confused.
\<close>

theorem exhausted_outcome:
  assumes "buildSystemPrompt h agent customParams apiKey userInput = Inr systemPrompt"
    and "extractGeminiParameters h customParams = Inr geminiParams"
    and "loadAgentTools getToolById agent = Inr agentTools"
    and "run_passes h backend (model agent) geminiParams agentTools apiKey MAX_ITERATIONS 0
           [initial_turn systemPrompt userInput] [] = Some (conversation, lg)"
  shows "executeAgentWithTools h getToolById backend agent userInput customParams apiKey
       = Inr \<lparr>success = False,
              error = Some (VStr ''Max iterations reached. Task may be incomplete.''),
              result = Some (parts_text (last conversation)), iterations = 10,
              toolExecutions = lg, conversationHistory = conversation\<rparr>
    \<and> parts_text (last conversation) \<noteq> []
    \<and> (\<exists>reply previous. reply \<noteq> [] \<and> parseFunctionCalls h reply \<noteq> []
          \<and> conversation
            = previous @ \<lparr>role = Model, parts_text = reply\<rparr>
                # map (result_turn h) (resolved_calls agentTools (parseFunctionCalls h reply))
          \<and> last conversation
            = (if resolved_calls agentTools (parseFunctionCalls h reply) = []
               then \<lparr>role = Model, parts_text = reply\<rparr>
               else result_turn h (last (resolved_calls agentTools (parseFunctionCalls h reply)))))
    \<and> (\<forall>e n l c. failed_run e n l c
          \<noteq> Inr \<lparr>success = False,
                  error = Some (VStr ''Max iterations reached. Task may be incomplete.''),
                  result = Some (parts_text (last conversation)), iterations = 10,
                  toolExecutions = lg, conversationHistory = conversation\<rparr>)"
proof -
  have m: "MAX_ITERATIONS = Suc 9" by (simp add: MAX_ITERATIONS_def)
  from last_pass_turn [OF assms(4) [unfolded m]] obtain reply previous where
    r: "reply \<noteq> []" "parseFunctionCalls h reply \<noteq> []"
    "conversation
       = previous @ \<lparr>role = Model, parts_text = reply\<rparr>
           # map (result_turn h) (resolved_calls agentTools (parseFunctionCalls h reply))"
    "last conversation
       = (if resolved_calls agentTools (parseFunctionCalls h reply) = []
          then \<lparr>role = Model, parts_text = reply\<rparr>
          else result_turn h (last (resolved_calls agentTools (parseFunctionCalls h reply))))"
    by blast
  from r(1,4) have nonempty_text: "parts_text (last conversation) \<noteq> []"
    by (simp add: result_turn_text)
  from r(3) have ne: "conversation \<noteq> []" by simp
  from ne nonempty_text have lt: "last_text conversation = Some (parts_text (last conversation))"
    by (simp add: last_text_def)
  have "0 + MAX_ITERATIONS = MAX_ITERATIONS" by simp
  from exhausted_after_passes [OF assms(4) this]
  have run: "executeAgentWithTools h getToolById backend agent userInput customParams apiKey
       = Inr \<lparr>success = False,
              error = Some (VStr ''Max iterations reached. Task may be incomplete.''),
              result = Some (parts_text (last conversation)), iterations = 10,
              toolExecutions = lg, conversationHistory = conversation\<rparr>"
    by (simp add: executeAgentWithTools_loop [OF assms(1,2,3)] lt MAX_ITERATIONS_def)
  have distinct: "\<forall>e n l c. failed_run e n l c
          \<noteq> Inr \<lparr>success = False,
                  error = Some (VStr ''Max iterations reached. Task may be incomplete.''),
                  result = Some (parts_text (last conversation)), iterations = 10,
                  toolExecutions = lg, conversationHistory = conversation\<rparr>"
  proof (intro allI notI)
    fix e n l c
    assume "failed_run e n l c
          = Inr \<lparr>success = False,
                  error = Some (VStr ''Max iterations reached. Task may be incomplete.''),
                  result = Some (parts_text (last conversation)), iterations = 10,
                  toolExecutions = lg, conversationHistory = conversation\<rparr>"
    from failed_run_result [OF this] show False by simp
  qed
  from run nonempty_text r distinct show ?thesis by blast
qed

theorem exhausted_outcome_witness:
  "\<exists>conversation lg.
     executeAgentWithTools sample_host sample_store (reply_with sample_call_text) sample_agent
       ''What is 2 + 2?'' [] ''key''
     = Inr \<lparr>success = False,
            error = Some (VStr ''Max iterations reached. Task may be incomplete.''),
            result = Some (parts_text (last conversation)), iterations = 10,
            toolExecutions = lg, conversationHistory = conversation\<rparr>
     \<and> last conversation = sample_tool_turn"
proof -
  from sample_passes [of "''gemini-2.5-flash''" empty_params "''key''" 9 0
      "[initial_turn sample_prompt ''What is 2 + 2?'']" "[]"]
  obtain conversation' lg' where
    p: "run_passes sample_host (reply_with sample_call_text) (model sample_agent)
          empty_params [calculator_tool] ''key'' MAX_ITERATIONS 0
          [initial_turn sample_prompt ''What is 2 + 2?''] []
        = Some (conversation', lg')"
    and l: "last conversation' = sample_tool_turn"
    by (auto simp: eval_nat_numeral sample_model MAX_ITERATIONS_def)
  from exhausted_outcome [OF sample_buildSystemPrompt extract_no_params sample_tools p] l
  show ?thesis by blast
qed

section \<open>Generation parameters\<close>

lemma lower_Temperature: "toLowerCase ''Temperature'' = ''temperature''"
  by code_simp

lemma lower_topic: "toLowerCase ''topic'' = ''topic''"
  by code_simp

lemma supplied_Nil [simp]: "supplied key [] = None"
  by (simp add: supplied_def)

lemma find_append_cases:
  "find P (xs @ ys) = (case find P xs of None \<Rightarrow> find P ys | Some x \<Rightarrow> Some x)"
  by (induction xs) simp_all

lemma supplied_Cons:
  "supplied key (entry # ps) =
     (case supplied key ps of
        Some v \<Rightarrow> Some v
      | None \<Rightarrow> if toLowerCase (fst entry) = key then Some (snd entry) else None)"
  by (simp add: supplied_def find_append_cases split: option.splits)

lemma set_params_Cons_Inr:
  assumes "set_params h g (entry # ps) = Inr gp"
  obtains g1 where "set_param h g entry = Inr g1" "set_params h g1 ps = Inr gp"
  using assms by (auto split: sum.splits)

text \<open>
  When the extraction returns, each field of \<open>geminiParams\<close> holds the coerced value of
  the last entry that names it.
\<close>

lemma extracted_fields:
  "set_params h g ps = Inr gp \<Longrightarrow>
   temperature gp
     = (case supplied ''temperature'' ps of None \<Rightarrow> temperature g
        | Some v \<Rightarrow> (case coerce_param h v of Inr c \<Rightarrow> c | Inl e \<Rightarrow> VUndefined))
   \<and> maxOutputTokens gp
     = (case supplied ''maxtokens'' ps of None \<Rightarrow> maxOutputTokens g
        | Some v \<Rightarrow> (case coerce_param h v of Inr c \<Rightarrow> c | Inl e \<Rightarrow> VUndefined))
   \<and> topP gp
     = (case supplied ''topp'' ps of None \<Rightarrow> topP g
        | Some v \<Rightarrow> (case coerce_param h v of Inr c \<Rightarrow> c | Inl e \<Rightarrow> VUndefined))
   \<and> topK gp
     = (case supplied ''topk'' ps of None \<Rightarrow> topK g
        | Some v \<Rightarrow> (case coerce_param h v of Inr c \<Rightarrow> c | Inl e \<Rightarrow> VUndefined))"
proof (induction ps arbitrary: g)
  case Nil
  then show ?case by simp
next
  case (Cons entry ps)
  from Cons.prems obtain g1 where
    s: "set_param h g entry = Inr g1" and r: "set_params h g1 ps = Inr gp"
    by (rule set_params_Cons_Inr)
  from s have g1:
    "temperature g1 = (if toLowerCase (fst entry) = ''temperature''
        then (case coerce_param h (snd entry) of Inr c \<Rightarrow> c | Inl e \<Rightarrow> VUndefined)
        else temperature g)"
    "maxOutputTokens g1 = (if toLowerCase (fst entry) = ''maxtokens''
        then (case coerce_param h (snd entry) of Inr c \<Rightarrow> c | Inl e \<Rightarrow> VUndefined)
        else maxOutputTokens g)"
    "topP g1 = (if toLowerCase (fst entry) = ''topp''
        then (case coerce_param h (snd entry) of Inr c \<Rightarrow> c | Inl e \<Rightarrow> VUndefined)
        else topP g)"
    "topK g1 = (if toLowerCase (fst entry) = ''topk''
        then (case coerce_param h (snd entry) of Inr c \<Rightarrow> c | Inl e \<Rightarrow> VUndefined)
        else topK g)"
    by (auto simp: set_param_def Let_def mapped_key_def split: if_splits sum.splits)
  from Cons.IH [OF r] show ?case
    by (simp add: supplied_Cons g1 split: option.splits)
qed

lemma omit_param_Cons:
  "omit_param key (entry # ps) =
     (if toLowerCase (fst entry) = key then omit_param key ps else entry # omit_param key ps)"
  by (simp add: omit_param_def)

lemma supplied_omit:
  "supplied key' (omit_param key ps) = (if key' = key then None else supplied key' ps)"
  by (induction ps) (auto simp: omit_param_Cons supplied_Cons omit_param_def split: option.splits)

text \<open>Whether a pass of the \<open>forEach\<close> throws, and what, depends on the entry alone.\<close>

lemma set_param_throws:
  "set_param h g entry = Inl e \<longleftrightarrow>
     mapped_key (toLowerCase (fst entry)) \<and> coerce_param h (snd entry) = Inl e"
  by (auto simp: set_param_def Let_def split: sum.splits)

lemma set_params_omit_throws:
  assumes "key \<in> set [''temperature'', ''maxtokens'', ''topp'', ''topk'']"
    and "\<forall>entry \<in> set ps. toLowerCase (fst entry) = key \<longrightarrow> (\<exists>c. coerce_param h (snd entry) = Inr c)"
  shows "set_params h g ps = Inl e \<longleftrightarrow> set_params h g' (omit_param key ps) = Inl e"
  using assms(2)
proof (induction ps arbitrary: g g')
  case Nil
  show ?case by (simp add: omit_param_def)
next
  case (Cons entry ps)
  from Cons.prems have rest: "\<forall>entry \<in> set ps. toLowerCase (fst entry) = key \<longrightarrow>
      (\<exists>c. coerce_param h (snd entry) = Inr c)" by simp
  show ?case
  proof (cases "toLowerCase (fst entry) = key")
    case True
    with Cons.prems obtain c where "coerce_param h (snd entry) = Inr c" by auto
    then obtain g1 where g1: "set_param h g entry = Inr g1"
      by (cases "set_param h g entry") (auto simp: set_param_throws)
    from Cons.IH [OF rest, of g1 g'] True g1 show ?thesis
      by (simp add: omit_param_Cons)
  next
    case False
    show ?thesis
    proof (cases "set_param h g entry")
      case (Inl x)
      then have "set_param h g' entry = Inl x" by (simp add: set_param_throws)
      with Inl False show ?thesis by (simp add: omit_param_Cons)
    next
      case (Inr g1)
      have "set_param h g' entry = Inl a \<Longrightarrow> set_param h g entry = Inl a" for a
        by (simp add: set_param_throws)
      with Inr obtain g1' where g1': "set_param h g' entry = Inr g1'"
        by (cases "set_param h g' entry") auto
      from Cons.IH [OF rest, of g1 g1'] Inr g1' False show ?thesis
        by (simp add: omit_param_Cons)
    qed
  qed
qed

lemma request_config_omit:
  assumes key: "key \<in> set [''temperature'', ''maxtokens'', ''topp'', ''topk'']"
    and s: "supplied key ps = Some v" and c: "coerce_param h v = Inr c" and f: "\<not> truthy c"
    and gp: "set_params h empty_params ps = Inr gp"
    and gp': "set_params h empty_params (omit_param key ps) = Inr gp'"
  shows "request_config gp = request_config gp'"
    and "key = ''temperature'' \<longrightarrow> cfg_temperature (request_config gp) = VNum (7 / 10)"
    and "key = ''topk'' \<longrightarrow> cfg_topK (request_config gp) = VNum 40"
    and "key = ''topp'' \<longrightarrow> cfg_topP (request_config gp) = VNum (95 / 100)"
    and "key = ''maxtokens'' \<longrightarrow> cfg_maxOutputTokens (request_config gp) = VNum 8000"
  using key s c f extracted_fields [OF gp] extracted_fields [OF gp']
  by (auto simp: request_config_def supplied_omit js_or_def empty_params_def)

lemma callGeminiAPI_config:
  "request_config gp = request_config gp' \<Longrightarrow>
     callGeminiAPI backend mdl conversation gp agentTools apiKey
     = callGeminiAPI backend mdl conversation gp' agentTools apiKey"
  by (simp add: callGeminiAPI_def requestBody_def)

lemma loop_body_config:
  "request_config gp = request_config gp' \<Longrightarrow>
     loop_body h backend mdl gp agentTools apiKey it conversation lg
     = loop_body h backend mdl gp' agentTools apiKey it conversation lg"
  by (simp add: loop_body_def callGeminiAPI_config [of gp gp'])

lemma conversation_loop_config:
  assumes "request_config gp = request_config gp'"
  shows "conversation_loop h backend mdl gp agentTools apiKey it conversation lg
     = conversation_loop h backend mdl gp' agentTools apiKey it conversation lg"
proof (induction "MAX_ITERATIONS - it" arbitrary: it conversation lg)
  case 0
  then have "\<not> it < MAX_ITERATIONS" by simp
  then show ?case by (simp add: conversation_loop_exhausted)
next
  case (Suc n)
  then have lt: "it < MAX_ITERATIONS" by simp
  from Suc(2) have n: "n = MAX_ITERATIONS - Suc it" by simp
  show ?case
  proof (cases "loop_body h backend mdl gp' agentTools apiKey it conversation lg")
    case (Return x)
    then show ?thesis
      by (simp add: conversation_loop_step [OF lt] loop_body_config [OF assms])
  next
    case (Continue c1 l1)
    with Suc(1) [OF n, of c1 l1] show ?thesis
      by (simp add: conversation_loop_step [OF lt] loop_body_config [OF assms])
  qed
qed

lemma contextParams_omit:
  assumes "key \<in> set [''temperature'', ''maxtokens'', ''topp'', ''topk'']"
  shows "contextParams (omit_param key ps) = contextParams ps"
  using assms unfolding contextParams_def omit_param_def filter_filter
  by (intro filter_cong) auto

lemma buildSystemPrompt_omit:
  assumes "key \<in> set [''temperature'', ''maxtokens'', ''topp'', ''topk'']"
  shows "buildSystemPrompt h agent (omit_param key ps) apiKey userInput
       = buildSystemPrompt h agent ps apiKey userInput"
  by (simp only: buildSystemPrompt_def contextParams_omit [OF assms])

lemma coerce_zero: "coerce_param h (VNum 0) = Inr (VNum 0) \<and> \<not> truthy (VNum 0)"
  by (simp add: coerce_param_def parseFloat_def)

text \<open>
  C10. Let the caller supply one of the four generation parameters (\<open>supplied\<close>: the value
  of the last entry whose key is \<open>temperature\<close>, \<open>maxtokens\<close>, \<open>topp\<close> or \<open>topk\<close> up to
  case), let that value be falsy after the coercion \<open>parseFloat(value) || value\<close>, as the
  number 0 is, and let the coercion return for every entry of that name. Then extracting
  the parameters has the outcome it has when the parameter is omitted: the same error is
  thrown, or both extractions return and give the same request configuration, which carries
  the gateway's default in the parameter's place (0.7, 8000, 0.95, 40); and the whole run
  is the run obtained when the parameter is omitted.
\<close>

theorem falsy_parameter_defaulted:
  assumes "key \<in> set [''temperature'', ''maxtokens'', ''topp'', ''topk'']"
    and "supplied key customParams = Some v"
    and "coerce_param h v = Inr c" and "\<not> truthy c"
    and "\<forall>entry \<in> set customParams. toLowerCase (fst entry) = key \<longrightarrow>
           (\<exists>c'. coerce_param h (snd entry) = Inr c')"
  shows "map_sum (\<lambda>e. e) request_config (extractGeminiParameters h customParams)
       = map_sum (\<lambda>e. e) request_config (extractGeminiParameters h (omit_param key customParams))
    \<and> (\<forall>geminiParams. extractGeminiParameters h customParams = Inr geminiParams \<longrightarrow>
         (key = ''temperature'' \<longrightarrow> cfg_temperature (request_config geminiParams) = VNum (7 / 10))
         \<and> (key = ''topk'' \<longrightarrow> cfg_topK (request_config geminiParams) = VNum 40)
         \<and> (key = ''topp'' \<longrightarrow> cfg_topP (request_config geminiParams) = VNum (95 / 100))
         \<and> (key = ''maxtokens'' \<longrightarrow>
              cfg_maxOutputTokens (request_config geminiParams) = VNum 8000))
    \<and> executeAgentWithTools h getToolById backend agent userInput customParams apiKey
       = executeAgentWithTools h getToolById backend agent userInput
           (omit_param key customParams) apiKey
    \<and> coerce_param h (VNum 0) = Inr (VNum 0) \<and> \<not> truthy (VNum 0)"
proof -
  have throws: "extractGeminiParameters h customParams = Inl e
      \<longleftrightarrow> extractGeminiParameters h (omit_param key customParams) = Inl e" for e
    unfolding extractGeminiParameters_def by (rule set_params_omit_throws [OF assms(1,5)])
  have returns: "\<exists>gp'. extractGeminiParameters h (omit_param key customParams) = Inr gp'
      \<and> request_config gp = request_config gp'"
    if gp: "extractGeminiParameters h customParams = Inr gp" for gp
  proof (cases "extractGeminiParameters h (omit_param key customParams)")
    case (Inl e)
    with throws [of e] gp show ?thesis by simp
  next
    case (Inr gp')
    from request_config_omit(1) [OF assms(1,2,3,4) gp [unfolded extractGeminiParameters_def]
        Inr [unfolded extractGeminiParameters_def]] Inr
    show ?thesis by simp
  qed
  have cfg: "map_sum (\<lambda>e. e) request_config (extractGeminiParameters h customParams)
       = map_sum (\<lambda>e. e) request_config (extractGeminiParameters h (omit_param key customParams))"
  proof (cases "extractGeminiParameters h customParams")
    case (Inl e)
    with throws [of e] show ?thesis by simp
  next
    case (Inr gp)
    from returns [OF Inr] Inr show ?thesis by auto
  qed
  have defaults: "\<forall>geminiParams. extractGeminiParameters h customParams = Inr geminiParams \<longrightarrow>
         (key = ''temperature'' \<longrightarrow> cfg_temperature (request_config geminiParams) = VNum (7 / 10))
         \<and> (key = ''topk'' \<longrightarrow> cfg_topK (request_config geminiParams) = VNum 40)
         \<and> (key = ''topp'' \<longrightarrow> cfg_topP (request_config geminiParams) = VNum (95 / 100))
         \<and> (key = ''maxtokens'' \<longrightarrow>
              cfg_maxOutputTokens (request_config geminiParams) = VNum 8000)"
  proof (intro allI impI)
    fix geminiParams
    assume gp: "extractGeminiParameters h customParams = Inr geminiParams"
    from returns [OF gp] obtain gp' where
      gp': "extractGeminiParameters h (omit_param key customParams) = Inr gp'" by blast
    from request_config_omit(2-5) [OF assms(1,2,3,4) gp [unfolded extractGeminiParameters_def]
        gp' [unfolded extractGeminiParameters_def]]
    show "(key = ''temperature'' \<longrightarrow> cfg_temperature (request_config geminiParams) = VNum (7 / 10))
         \<and> (key = ''topk'' \<longrightarrow> cfg_topK (request_config geminiParams) = VNum 40)
         \<and> (key = ''topp'' \<longrightarrow> cfg_topP (request_config geminiParams) = VNum (95 / 100))
         \<and> (key = ''maxtokens'' \<longrightarrow>
              cfg_maxOutputTokens (request_config geminiParams) = VNum 8000)"
      by blast
  qed
  have run: "executeAgentWithTools h getToolById backend agent userInput customParams apiKey
       = executeAgentWithTools h getToolById backend agent userInput
           (omit_param key customParams) apiKey"
  proof (cases "extractGeminiParameters h customParams")
    case (Inl e)
    with throws [of e] show ?thesis
      by (simp add: executeAgentWithTools_def buildSystemPrompt_omit [OF assms(1)]
          cong: sum.case_cong)
  next
    case (Inr gp)
    from returns [OF Inr] obtain gp' where
      gp': "extractGeminiParameters h (omit_param key customParams) = Inr gp'"
      and eq: "request_config gp = request_config gp'" by blast
    show ?thesis
      by (simp add: executeAgentWithTools_def buildSystemPrompt_omit [OF assms(1)] Inr gp'
          conversation_loop_config [OF eq] cong: sum.case_cong)
  qed
  from cfg defaults run coerce_zero show ?thesis by blast
qed

theorem falsy_parameter_defaulted_witness:
  "extractGeminiParameters sample_host [(''topic'', VStr ''math''), (''Temperature'', VNum 0)]
   = Inr (empty_params\<lparr>temperature := VNum 0\<rparr>)
   \<and> request_config (empty_params\<lparr>temperature := VNum 0\<rparr>)
   = \<lparr>cfg_temperature = VNum (7 / 10), cfg_topK = VNum 40, cfg_topP = VNum (95 / 100),
      cfg_maxOutputTokens = VNum 8000\<rparr>
   \<and> executeAgentWithTools sample_host sample_store (reply_with ''The answer is 4.'') sample_agent
       ''What is 2 + 2?'' [(''topic'', VStr ''math''), (''Temperature'', VNum 0)] ''key''
     = executeAgentWithTools sample_host sample_store (reply_with ''The answer is 4.'') sample_agent
       ''What is 2 + 2?'' [(''topic'', VStr ''math'')] ''key''"
proof -
  have a: "''temperature'' \<in> set [''temperature'', ''maxtokens'', ''topp'', ''topk'']"
    by simp
  have s: "supplied ''temperature'' [(''topic'', VStr ''math''), (''Temperature'', VNum 0)]
      = Some (VNum 0)"
    by (simp add: supplied_def lower_Temperature)
  have b: "coerce_param sample_host (VNum 0) = Inr (VNum 0)"
    by (simp add: coerce_param_def parseFloat_def)
  have f: "\<not> truthy (VNum 0)" by simp
  have e: "\<forall>entry \<in> set [(''topic'', VStr ''math''), (''Temperature'', VNum 0)].
      toLowerCase (fst entry) = ''temperature'' \<longrightarrow>
        (\<exists>c'. coerce_param sample_host (snd entry) = Inr c')"
    by (simp add: lower_topic lower_Temperature b)
  have o: "omit_param ''temperature'' [(''topic'', VStr ''math''), (''Temperature'', VNum 0)]
      = [(''topic'', VStr ''math'')]"
    by (simp add: omit_param_def lower_Temperature lower_topic)
  have x: "extractGeminiParameters sample_host [(''topic'', VStr ''math''), (''Temperature'', VNum 0)]
      = Inr (empty_params\<lparr>temperature := VNum 0\<rparr>)"
    by (simp add: extractGeminiParameters_def set_param_def lower_topic lower_Temperature
        mapped_key_def b)
  have d: "request_config (empty_params\<lparr>temperature := VNum 0\<rparr>)
      = \<lparr>cfg_temperature = VNum (7 / 10), cfg_topK = VNum 40, cfg_topP = VNum (95 / 100),
         cfg_maxOutputTokens = VNum 8000\<rparr>"
    by (simp add: request_config_def js_or_def empty_params_def)
  from falsy_parameter_defaulted [OF a s b f e, of sample_store "reply_with ''The answer is 4.''"
      sample_agent "''What is 2 + 2?''" "''key''"] x d
  show ?thesis by (simp add: o)
qed

end
